theory Spec2Isabelle
  imports Complex_Main "HOL-Library.AList"
begin

section \<open>Status and Button (src/src/InputManager.ts, lines 34-109)\<close>

text \<open>
  The five flags of class \<open>Status\<close>; the constructor sets all of them to false.
\<close>

record Status =
  isDown :: bool
  wasDown :: bool
  isPressed :: bool
  isHeld :: bool
  isReleased :: bool

definition new_Status :: Status where
  "new_Status =
     \<lparr>isDown = False, wasDown = False, isPressed = False, isHeld = False, isReleased = False\<rparr>"

text \<open>
  A callback is a function value of the host program. The model identifies it by a tag:
  \<open>noOp\<close> is the module's constant that does nothing, \<open>toggleFullScreen\<close> is
  \<open>DM.toggleFullScreen.bind(DM)\<close>, and \<open>Handler n\<close> is any other function, named
  \<open>n\<close>. Calling a callback is recorded in a trace of events, in call order.
\<close>

datatype callback = noOp | toggleFullScreen | Handler string

datatype event =
    Call callback
  | CallDir callback string
  | Log string

record Button =
  key :: string
  status :: Status
  gpButtonIndex :: "nat option"
  onPressed :: callback
  onReleased :: callback

definition new_Button :: "string \<Rightarrow> nat option \<Rightarrow> Button" where
  "new_Button k gp =
     \<lparr>key = k, status = new_Status, gpButtonIndex = gp, onPressed = noOp, onReleased = noOp\<rparr>"

definition Button_down :: "Button \<Rightarrow> Button" where
  "Button_down b =
     b\<lparr>status := (status b)
        \<lparr>isDown := True,
         isHeld := wasDown (status b),
         isPressed := \<not> wasDown (status b),
         isReleased := False\<rparr>\<rparr>"

definition Button_up :: "Button \<Rightarrow> Button" where
  "Button_up b =
     b\<lparr>status := (status b)
        \<lparr>isDown := False,
         isHeld := False,
         isPressed := False,
         isReleased := wasDown (status b)\<rparr>\<rparr>"

definition Button_step :: "bool \<Rightarrow> Button \<Rightarrow> Button" where
  "Button_step currentlyDown b =
     b\<lparr>status := (status b)
        \<lparr>isDown := currentlyDown,
         isHeld := currentlyDown \<and> wasDown (status b),
         isPressed := currentlyDown \<and> \<not> wasDown (status b),
         isReleased := \<not> currentlyDown \<and> wasDown (status b)\<rparr>\<rparr>"

text \<open>The body of the loop of \<open>InputManager.ageButtons\<close> (lines 391-394), for one button.\<close>

definition ageButton :: "Button \<Rightarrow> Button" where
  "ageButton b =
     b\<lparr>status := (status b)
        \<lparr>wasDown := isDown (status b),
         isReleased := False,
         isHeld := isDown (status b),
         isPressed := False\<rparr>\<rparr>"

subsection \<open>The two update paths, step after step\<close>

text \<open>
  One step of the event-driven path: \<open>down()\<close> when the key is down in this step,
  \<open>up()\<close> when it is up.
\<close>

definition discrete_update :: "bool \<Rightarrow> Button \<Rightarrow> Button" where
  "discrete_update currentlyDown b = (if currentlyDown then Button_down b else Button_up b)"

text \<open>
  A run over several steps: in each step the button is updated once, its Status is
  observed, and the button is aged. The list holds the observed Status of every step.
\<close>

primrec run_discrete :: "bool list \<Rightarrow> Button \<Rightarrow> Status list" where
  "run_discrete [] b = []"
| "run_discrete (c # cs) b =
     status (discrete_update c b) # run_discrete cs (ageButton (discrete_update c b))"

primrec run_polled :: "bool list \<Rightarrow> Button \<Rightarrow> Status list" where
  "run_polled [] b = []"
| "run_polled (c # cs) b =
     status (Button_step c b) # run_polled cs (ageButton (Button_step c b))"

text \<open>
  The transition table of section 4.1 of the specification, row by row: the Status it
  prescribes for a control that was down (or not) in the last step and is down (or not) now.
\<close>

definition spec_table :: "bool \<Rightarrow> bool \<Rightarrow> Status" where
  "spec_table was currentlyDown =
     \<lparr>isDown = currentlyDown,
      wasDown = was,
      isPressed = (currentlyDown \<and> \<not> was),
      isHeld = (currentlyDown \<and> was),
      isReleased = (\<not> currentlyDown \<and> was)\<rparr>"

primrec spec_run :: "bool list \<Rightarrow> bool \<Rightarrow> Status list" where
  "spec_run [] was = []"
| "spec_run (c # cs) was = spec_table was c # spec_run cs c"

section \<open>Vector\<close>

text \<open>
  Modelled from the spec: class \<open>Vector\<close> (Vector.ts is not among the sources). The
  specification describes it as a pair of reals \<open>(x, y)\<close> whose operations return new
  vectors, with \<open>normalize()\<close> of the zero vector being the zero vector. Coordinates are
  real numbers here.
\<close>

datatype Vector = Vector (vec_x: real) (vec_y: real)

definition getMagnitude :: "Vector \<Rightarrow> real" where
  "getMagnitude v = sqrt (vec_x v * vec_x v + vec_y v * vec_y v)"

definition multiply :: "Vector \<Rightarrow> real \<Rightarrow> Vector" where
  "multiply v c = Vector (vec_x v * c) (vec_y v * c)"

definition add_vec :: "Vector \<Rightarrow> Vector \<Rightarrow> Vector" where
  "add_vec v w = Vector (vec_x v + vec_x w) (vec_y v + vec_y w)"

definition normalize :: "Vector \<Rightarrow> Vector" where
  "normalize v =
     (if getMagnitude v = 0 then Vector 0 0
      else Vector (vec_x v / getMagnitude v) (vec_y v / getMagnitude v))"

section \<open>Directional (lines 115-203)\<close>

text \<open>
  Objects live in a store and are named by references. A Directional holds the references
  of its four buttons.
\<close>

type_synonym ref = nat

record Directional =
  upButton :: ref
  rightButton :: ref
  downButton :: ref
  leftButton :: ref
  hAxisIndex :: "nat option"
  vAxisIndex :: "nat option"
  vec :: Vector
  fn :: callback
  keyDelay :: int
  keyRate :: int
  keyCounter :: int

definition getButtons :: "Directional \<Rightarrow> ref list" where
  "getButtons d = [upButton d, rightButton d, downButton d, leftButton d]"

text \<open>The label \<open>fn\<close> is called with when the repeat counter fires (lines 191-197).\<close>

definition fire_label :: "Vector \<Rightarrow> string" where
  "fire_label v =
     (if \<bar>vec_x v\<bar> > \<bar>vec_y v\<bar> then (if vec_x v > 0 then ''right'' else ''left'')
      else (if vec_y v > 0 then ''up'' else ''down''))"

text \<open>
  \<open>Directional.step\<close>: the directional afterwards, and the label \<open>fn\<close> was called with in
  this step, if it was called.
\<close>

definition Directional_step :: "Directional \<Rightarrow> Directional \<times> string option" where
  "Directional_step d =
     (if getMagnitude (vec d) = 0 then (d\<lparr>keyCounter := keyDelay d\<rparr>, None)
      else if keyCounter d = 0
        then (d\<lparr>keyCounter := keyRate d - 1\<rparr>, Some (fire_label (vec d)))
        else (d\<lparr>keyCounter := keyCounter d - 1\<rparr>, None))"

text \<open>Calling \<open>step()\<close> \<open>n\<close> times in a row, and what the \<open>n\<close>-th of these calls fires.\<close>

primrec steps :: "nat \<Rightarrow> Directional \<Rightarrow> Directional" where
  "steps 0 d = d"
| "steps (Suc n) d = fst (Directional_step (steps n d))"

definition fired_on :: "nat \<Rightarrow> Directional \<Rightarrow> string option" where
  "fired_on n d = snd (Directional_step (steps (n - 1) d))"

text \<open>
  Between two steps the key and gamepad events set the intent vector; \<open>step_with v\<close> is
  a step that finds the vector \<open>v\<close>. A run takes the vector of every step and gives the
  directional it leaves (\<open>run_steps\<close>) and, step by step, the label the callback was
  called with, if it was called (\<open>fired_labels\<close>).
\<close>

definition step_with :: "Vector \<Rightarrow> Directional \<Rightarrow> Directional \<times> string option" where
  "step_with v d = Directional_step (d\<lparr>vec := v\<rparr>)"

primrec run_steps :: "Vector list \<Rightarrow> Directional \<Rightarrow> Directional" where
  "run_steps [] d = d"
| "run_steps (v # vs) d = run_steps vs (fst (step_with v d))"

primrec fired_labels :: "Vector list \<Rightarrow> Directional \<Rightarrow> string option list" where
  "fired_labels [] d = []"
| "fired_labels (v # vs) d = snd (step_with v d) # fired_labels vs (fst (step_with v d))"

section \<open>Input Manager (lines 210-792)\<close>

record MouseFunctions =
  mouse_down :: callback
  mouse_up :: callback
  mouse_move :: callback

record SavedControls =
  saved_buttons :: "(string \<times> ref) list"
  saved_directionals :: "(string \<times> ref) list"

record MenuNavigationInputs =
  nav_up :: string
  nav_right :: string
  nav_down :: string
  nav_left :: string
  hAxis :: "nat option"
  vAxis :: "nat option"
  clickKey :: string
  clickGP :: "nat option"
  cancelKey :: string
  cancelGP :: "nat option"
  fullscreenKey :: string
  fullscreenGP :: "nat option"

text \<open>
  The manager's fields, followed by what the model carries along with them: the store of
  Button and Directional objects (\<open>buttonObjs\<close>, \<open>directionalObjs\<close>, with \<open>nextRef\<close>
  the next fresh reference) and the \<open>trace\<close> of callbacks called and diagnostics logged.
  A \<open>Map<string, _>\<close> is an association list from names to references, in insertion
  order.
\<close>

record InputManager =
  directionals :: "(string \<times> ref) list"
  buttons :: "(string \<times> ref) list"
  usingKeyboard :: bool
  deadZone :: real
  stickSensitivity :: real
  noisy :: bool
  mouseFunctions :: MouseFunctions
  noContextMenu :: bool
  savedControls :: "SavedControls option"
  menuNavigationInputs :: MenuNavigationInputs
  buttonObjs :: "ref \<rightharpoonup> Button"
  directionalObjs :: "ref \<rightharpoonup> Directional"
  nextRef :: ref
  trace :: "event list"

definition new_InputManager :: InputManager where
  "new_InputManager =
     \<lparr>directionals = [],
      buttons = [],
      usingKeyboard = False,
      deadZone = 2 / 10,
      stickSensitivity = 14 / 10,
      noisy = True,
      mouseFunctions = \<lparr>mouse_down = noOp, mouse_up = noOp, mouse_move = noOp\<rparr>,
      noContextMenu = False,
      savedControls = None,
      menuNavigationInputs =
        \<lparr>nav_up = ''w'', nav_right = ''d'', nav_down = ''s'', nav_left = ''a'',
         hAxis = Some 0, vAxis = Some 1,
         clickKey = ''space'', clickGP = Some 4,
         cancelKey = ''tab'', cancelGP = Some 3,
         fullscreenKey = ''f'', fullscreenGP = Some 8\<rparr>,
      buttonObjs = Map.empty,
      directionalObjs = Map.empty,
      nextRef = 0,
      trace = []\<rparr>"

subsection \<open>The object store\<close>

definition alloc_Button :: "Button \<Rightarrow> InputManager \<Rightarrow> ref \<times> InputManager" where
  "alloc_Button b s =
     (nextRef s, s\<lparr>buttonObjs := (buttonObjs s)(nextRef s \<mapsto> b), nextRef := Suc (nextRef s)\<rparr>)"

definition alloc_Directional :: "Directional \<Rightarrow> InputManager \<Rightarrow> ref \<times> InputManager" where
  "alloc_Directional d s =
     (nextRef s,
      s\<lparr>directionalObjs := (directionalObjs s)(nextRef s \<mapsto> d), nextRef := Suc (nextRef s)\<rparr>)"

text \<open>A method call that mutates the object behind a reference.\<close>

definition update_Button :: "ref \<Rightarrow> (Button \<Rightarrow> Button) \<Rightarrow> InputManager \<Rightarrow> InputManager" where
  "update_Button r f s =
     (case buttonObjs s r of
        None \<Rightarrow> s
      | Some b \<Rightarrow> s\<lparr>buttonObjs := (buttonObjs s)(r \<mapsto> f b)\<rparr>)"

definition update_Directional ::
  "ref \<Rightarrow> (Directional \<Rightarrow> Directional) \<Rightarrow> InputManager \<Rightarrow> InputManager" where
  "update_Directional r f s =
     (case directionalObjs s r of
        None \<Rightarrow> s
      | Some d \<Rightarrow> s\<lparr>directionalObjs := (directionalObjs s)(r \<mapsto> f d)\<rparr>)"

text \<open>The constructor of Directional: four new buttons without a gamepad index.\<close>

definition new_Directional ::
  "string \<Rightarrow> string \<Rightarrow> string \<Rightarrow> string \<Rightarrow> nat option \<Rightarrow> nat option \<Rightarrow> InputManager
     \<Rightarrow> ref \<times> InputManager" where
  "new_Directional upKey rightKey downKey leftKey h v s =
     (let (u, s1) = alloc_Button (new_Button upKey None) s;
          (r, s2) = alloc_Button (new_Button rightKey None) s1;
          (d, s3) = alloc_Button (new_Button downKey None) s2;
          (l, s4) = alloc_Button (new_Button leftKey None) s3
      in alloc_Directional
           \<lparr>upButton = u, rightButton = r, downButton = d, leftButton = l,
            hAxisIndex = h, vAxisIndex = v, vec = Vector 0 0, fn = noOp,
            keyDelay = 20, keyRate = 5, keyCounter = 0\<rparr> s4)"

definition button_isDown :: "InputManager \<Rightarrow> ref \<Rightarrow> bool" where
  "button_isDown s r = (case buttonObjs s r of None \<Rightarrow> False | Some b \<Rightarrow> isDown (status b))"

definition setVecFromButtons :: "ref \<Rightarrow> InputManager \<Rightarrow> InputManager" where
  "setVecFromButtons dr s =
     update_Directional dr
       (\<lambda>d. let v0 = Vector 0 0;
                v1 = (if button_isDown s (leftButton d) then Vector (vec_x v0 - 1) (vec_y v0) else v0);
                v2 = (if button_isDown s (rightButton d) then Vector (vec_x v1 + 1) (vec_y v1) else v1);
                v3 = (if button_isDown s (upButton d) then Vector (vec_x v2) (vec_y v2 - 1) else v2);
                v4 = (if button_isDown s (downButton d) then Vector (vec_x v3) (vec_y v3 + 1) else v3)
            in d\<lparr>vec := normalize v4\<rparr>) s"

text \<open>\<open>dir.step()\<close> on the directional behind a reference; a call of \<open>fn\<close> goes to the trace.\<close>

definition stepDirectional :: "ref \<Rightarrow> InputManager \<Rightarrow> InputManager" where
  "stepDirectional dr s =
     (case directionalObjs s dr of
        None \<Rightarrow> s
      | Some d \<Rightarrow>
          (let s1 = s\<lparr>directionalObjs := (directionalObjs s)(dr \<mapsto> fst (Directional_step d))\<rparr>
           in case snd (Directional_step d) of
                None \<Rightarrow> s1
              | Some l \<Rightarrow> s1\<lparr>trace := trace s1 @ [CallDir (fn d) l]\<rparr>))"

subsection \<open>Registration, save and restore\<close>

definition registerButton :: "string \<Rightarrow> string \<Rightarrow> nat option \<Rightarrow> InputManager \<Rightarrow> InputManager" where
  "registerButton name k gp s =
     (let (r, s1) = alloc_Button (new_Button k gp) s
      in s1\<lparr>buttons := AList.update name r (buttons s1)\<rparr>)"

definition unregisterButton :: "string \<Rightarrow> InputManager \<Rightarrow> InputManager" where
  "unregisterButton name s = s\<lparr>buttons := AList.delete name (buttons s)\<rparr>"

definition registerDirectional ::
  "string \<Rightarrow> string \<Rightarrow> string \<Rightarrow> string \<Rightarrow> string \<Rightarrow> nat option \<Rightarrow> nat option \<Rightarrow> InputManager
     \<Rightarrow> InputManager" where
  "registerDirectional name upKey rightKey downKey leftKey h v s =
     (let (r, s1) = new_Directional upKey rightKey downKey leftKey h v s
      in s1\<lparr>directionals := AList.update name r (directionals s1)\<rparr>)"

definition unregisterAll :: "InputManager \<Rightarrow> InputManager" where
  "unregisterAll s = s\<lparr>buttons := [], directionals := []\<rparr>"

definition handler_or_noOp :: "callback option \<Rightarrow> callback" where
  "handler_or_noOp h = (case h of None \<Rightarrow> noOp | Some f \<Rightarrow> f)"

definition setOnPressed :: "string \<Rightarrow> callback option \<Rightarrow> InputManager \<Rightarrow> bool \<times> InputManager" where
  "setOnPressed name handler s =
     (case map_of (buttons s) name of
        Some r \<Rightarrow> (True, update_Button r (\<lambda>but. but\<lparr>onPressed := handler_or_noOp handler\<rparr>) s)
      | None \<Rightarrow> (False, s))"

definition setOnReleased :: "string \<Rightarrow> callback option \<Rightarrow> InputManager \<Rightarrow> bool \<times> InputManager" where
  "setOnReleased name handler s =
     (case map_of (buttons s) name of
        Some r \<Rightarrow> (True, update_Button r (\<lambda>but. but\<lparr>onReleased := handler_or_noOp handler\<rparr>) s)
      | None \<Rightarrow> (False, s))"

definition setDirectionalFunction :: "string \<Rightarrow> callback \<Rightarrow> InputManager \<Rightarrow> InputManager" where
  "setDirectionalFunction label handler s =
     (case map_of (directionals s) label of
        Some r \<Rightarrow> update_Directional r (\<lambda>d. d\<lparr>fn := handler\<rparr>) s
      | None \<Rightarrow> s)"

text \<open>
  \<open>save()\<close> fills two new Maps entry by entry (lines 299-306); the references are copied,
  the objects are not.
\<close>

definition copy_Map :: "(string \<times> ref) list \<Rightarrow> (string \<times> ref) list" where
  "copy_Map m = fold (\<lambda>(k, v) out. AList.update k v out) m []"

definition save :: "InputManager \<Rightarrow> InputManager" where
  "save s =
     (let s1 = (if noisy s \<and> savedControls s \<noteq> None
                then s\<lparr>trace := trace s @ [Log ''IM: Overwriting savedControls'']\<rparr> else s)
      in s1\<lparr>savedControls :=
              Some \<lparr>saved_buttons = copy_Map (buttons s1),
                    saved_directionals = copy_Map (directionals s1)\<rparr>\<rparr>)"

definition restore :: "InputManager \<Rightarrow> InputManager" where
  "restore s =
     (case savedControls s of
        Some sc \<Rightarrow>
          s\<lparr>buttons := saved_buttons sc,
            directionals := saved_directionals sc,
            savedControls := None\<rparr>
      | None \<Rightarrow>
          (if noisy s then s\<lparr>trace := trace s @ [Log ''IM: Tried to restore undefined controls'']\<rparr>
           else s))"

definition enterMenuMode :: "InputManager \<Rightarrow> InputManager" where
  "enterMenuMode s =
     (let m = menuNavigationInputs s;
          s1 = unregisterAll s;
          s2 = registerDirectional ''navigation'' (nav_up m) (nav_right m) (nav_down m) (nav_left m)
                 (hAxis m) (vAxis m) s1;
          s3 = registerButton ''enter'' (clickKey m) (clickGP m) s2;
          s4 = registerButton ''cancel'' (clickKey m) (clickGP m) s3;
          s5 = registerButton ''fullscreen'' (fullscreenKey m) (fullscreenGP m) s4
      in snd (setOnPressed ''fullscreen'' (Some toggleFullScreen) s5))"

subsection \<open>All buttons, aging\<close>

text \<open>
  \<open>getAllButtons\<close> (lines 378-383) pushes every registered button onto \<open>out\<close>. For the
  directionals it calls \<open>out.concat(dir.getButtons())\<close>: \<open>Array.prototype.concat\<close>
  returns a new array and leaves \<open>out\<close> as it is, and the returned array is dropped. The
  model computes the concatenation and keeps \<open>out\<close>, as the source does.
\<close>

definition dirButtons :: "InputManager \<Rightarrow> ref \<Rightarrow> ref list" where
  "dirButtons s dr = (case directionalObjs s dr of None \<Rightarrow> [] | Some d \<Rightarrow> getButtons d)"

definition getAllButtons :: "InputManager \<Rightarrow> ref list" where
  "getAllButtons s =
     (let out = fold (\<lambda>(name, but) out. out @ [but]) (buttons s) []
      in fold (\<lambda>(name, dr) out. fst (out, out @ dirButtons s dr)) (directionals s) out)"

definition ageButtons :: "InputManager \<Rightarrow> InputManager" where
  "ageButtons s = fold (\<lambda>b s. update_Button b ageButton s) (getAllButtons s) s"

subsection \<open>Gamepad polling (lines 402-467)\<close>

record GamepadButton =
  gb_value :: real
  pressed :: bool

record Gamepad =
  connected :: bool
  axes :: "real list"
  gp_buttons :: "GamepadButton list"

definition deadZoneGuard :: "real \<Rightarrow> real \<Rightarrow> real" where
  "deadZoneGuard dz a = (if \<bar>a\<bar> > dz then a else 0)"

text \<open>
  \<open>xai !== undefined && gamepad.axes[xai]\<close>: the index is given, in range, and the
  reading is not 0. The result is the guarded reading when the condition holds.
\<close>

definition axis_reading :: "real \<Rightarrow> Gamepad \<Rightarrow> nat option \<Rightarrow> real option" where
  "axis_reading dz gp ai =
     (case ai of
        None \<Rightarrow> None
      | Some i \<Rightarrow>
          if i < length (axes gp) \<and> axes gp ! i \<noteq> 0 then Some (deadZoneGuard dz (axes gp ! i))
          else None)"

text \<open>\<open>bi !== undefined && gamepad.buttons[bi]\<close>: the gamepad's button, when there is one.\<close>

definition gp_button :: "Gamepad \<Rightarrow> nat option \<Rightarrow> GamepadButton option" where
  "gp_button gp bi =
     (case bi of
        None \<Rightarrow> None
      | Some i \<Rightarrow> if i < length (gp_buttons gp) then Some (gp_buttons gp ! i) else None)"

definition gb_active :: "GamepadButton \<Rightarrow> bool" where
  "gb_active gb = (gb_value gb > 0 \<or> pressed gb)"

definition checkStick :: "Gamepad \<Rightarrow> ref \<Rightarrow> InputManager \<Rightarrow> InputManager" where
  "checkStick gp dr s =
     (case directionalObjs s dr of
        None \<Rightarrow> s
      | Some dir \<Rightarrow>
          (let s1 = (case axis_reading (deadZone s) gp (hAxisIndex dir) of
                       Some reading \<Rightarrow> if reading \<noteq> 0 then s\<lparr>usingKeyboard := False\<rparr> else s
                     | None \<Rightarrow> s)
           in case axis_reading (deadZone s1) gp (vAxisIndex dir) of
                Some reading \<Rightarrow> if reading \<noteq> 0 then s1\<lparr>usingKeyboard := False\<rparr> else s1
              | None \<Rightarrow> s1))"

definition checkButton :: "Gamepad \<Rightarrow> ref \<Rightarrow> InputManager \<Rightarrow> InputManager" where
  "checkButton gp br s =
     (case buttonObjs s br of
        None \<Rightarrow> s
      | Some but \<Rightarrow>
          (case gp_button gp (gpButtonIndex but) of
             Some gb \<Rightarrow> if gb_active gb then s\<lparr>usingKeyboard := False\<rparr> else s
           | None \<Rightarrow> s))"

definition readStick :: "Gamepad \<Rightarrow> ref \<Rightarrow> InputManager \<Rightarrow> InputManager" where
  "readStick gp dr s =
     update_Directional dr
       (\<lambda>dir. let xReading = (case axis_reading (deadZone s) gp (hAxisIndex dir) of
                               Some reading \<Rightarrow> reading | None \<Rightarrow> 0);
                  yReading = (case axis_reading (deadZone s) gp (vAxisIndex dir) of
                               Some reading \<Rightarrow> reading | None \<Rightarrow> 0);
                  v = multiply (Vector xReading yReading) (stickSensitivity s)
              in dir\<lparr>vec := (if getMagnitude v > 1 then normalize v else v)\<rparr>) s"

definition readButton :: "Gamepad \<Rightarrow> ref \<Rightarrow> InputManager \<Rightarrow> InputManager" where
  "readButton gp br s =
     (case buttonObjs s br of
        None \<Rightarrow> s
      | Some but \<Rightarrow>
          (case gp_button gp (gpButtonIndex but) of
             Some gb \<Rightarrow> update_Button br (Button_step (gb_active gb)) s
           | None \<Rightarrow> s))"

text \<open>One round of the loop over \<open>navigator.getGamepads()\<close>; \<open>None\<close> is a null entry.\<close>

definition pollGamepad :: "Gamepad option \<Rightarrow> InputManager \<Rightarrow> InputManager" where
  "pollGamepad g s =
     (case g of
        None \<Rightarrow> s
      | Some gp \<Rightarrow>
          if \<not> connected gp then s
          else
            (let s1 = fold (checkStick gp) (map snd (directionals s)) s;
                 s2 = fold (checkButton gp) (map snd (buttons s1)) s1
             in if \<not> usingKeyboard s2
                then (let s3 = fold (readStick gp) (map snd (directionals s2)) s2
                      in fold (readButton gp) (map snd (buttons s3)) s3)
                else s2))"

definition getGamepadInput :: "Gamepad option list \<Rightarrow> InputManager \<Rightarrow> InputManager" where
  "getGamepadInput gps s = fold pollGamepad gps s"

subsection \<open>Event handlers (lines 473-561)\<close>

definition button_key :: "InputManager \<Rightarrow> ref \<Rightarrow> string option" where
  "button_key s r = map_option key (buttonObjs s r)"

text \<open>
  The loops of \<open>keydownHandler\<close> and \<open>keyupHandler\<close>, with the method they call on a
  matching button (\<open>down()\<close> or \<open>up()\<close>). \<open>e.preventDefault()\<close> acts on the browser
  only and is left out.
\<close>

definition keyDirectional :: "string \<Rightarrow> (Button \<Rightarrow> Button) \<Rightarrow> ref \<Rightarrow> InputManager \<Rightarrow> InputManager" where
  "keyDirectional k f dr s =
     fold (\<lambda>db s. if button_key s db = Some k
                   then setVecFromButtons dr (update_Button db f s) else s)
       (dirButtons s dr) s"

definition keyButton :: "string \<Rightarrow> (Button \<Rightarrow> Button) \<Rightarrow> ref \<Rightarrow> InputManager \<Rightarrow> InputManager" where
  "keyButton k f br s = (if button_key s br = Some k then update_Button br f s else s)"

definition keydownHandler :: "string \<Rightarrow> InputManager \<Rightarrow> InputManager" where
  "keydownHandler k s =
     (let s1 = s\<lparr>usingKeyboard := True\<rparr>;
          s2 = fold (keyDirectional k Button_down) (map snd (directionals s1)) s1
      in fold (keyButton k Button_down) (map snd (buttons s2)) s2)"

definition keyupHandler :: "string \<Rightarrow> InputManager \<Rightarrow> InputManager" where
  "keyupHandler k s =
     (let s1 = s\<lparr>usingKeyboard := True\<rparr>;
          s2 = fold (keyDirectional k Button_up) (map snd (directionals s1)) s1
      in fold (keyButton k Button_up) (map snd (buttons s2)) s2)"





definition gamepaddisconnectHandler :: "InputManager \<Rightarrow> InputManager" where
  "gamepaddisconnectHandler s =
     (let s1 = (if noisy s then s\<lparr>trace := trace s @ [Log ''IM: gamepad disconnected'']\<rparr> else s)
      in s1\<lparr>usingKeyboard := True\<rparr>)"

definition setMouseDown :: "callback option \<Rightarrow> InputManager \<Rightarrow> InputManager" where
  "setMouseDown func s =
     s\<lparr>mouseFunctions := (mouseFunctions s)\<lparr>mouse_down := handler_or_noOp func\<rparr>\<rparr>"

definition setMouseUp :: "callback option \<Rightarrow> InputManager \<Rightarrow> InputManager" where
  "setMouseUp func s =
     s\<lparr>mouseFunctions := (mouseFunctions s)\<lparr>mouse_up := handler_or_noOp func\<rparr>\<rparr>"

definition setMouseMove :: "callback option \<Rightarrow> InputManager \<Rightarrow> InputManager" where
  "setMouseMove func s =
     s\<lparr>mouseFunctions := (mouseFunctions s)\<lparr>mouse_move := handler_or_noOp func\<rparr>\<rparr>"

subsection \<open>The step (lines 624-635)\<close>

definition fireButton :: "ref \<Rightarrow> InputManager \<Rightarrow> InputManager" where
  "fireButton r s =
     (case buttonObjs s r of
        None \<Rightarrow> s
      | Some b \<Rightarrow>
          (let s1 = (if isPressed (status b) then s\<lparr>trace := trace s @ [Call (onPressed b)]\<rparr> else s)
           in if isReleased (status b) then s1\<lparr>trace := trace s1 @ [Call (onReleased b)]\<rparr> else s1))"

definition InputManager_step :: "Gamepad option list \<Rightarrow> InputManager \<Rightarrow> InputManager" where
  "InputManager_step gps s =
     (let s1 = fold stepDirectional (map snd (directionals s)) s;
          s2 = getGamepadInput gps s1;
          s3 = fold fireButton (getAllButtons s2) s2
      in ageButtons s3)"

section \<open>Room Editor (class WorldRoomEditor, lines 847-1297)\<close>

text \<open>
  Modelled from the spec: the classes \<open>Polygon\<close>, \<open>Box\<close>, \<open>FreeRoamEntity\<close>,
  \<open>Background\<close> and \<open>Room\<close> and the display manager are not among the sources. After
  the specification, a Polygon is the ordered sequence of its points, to which
  \<open>addPoints\<close> appends; a Box is a top-left corner with a width and a height; an entity
  has a label, a draw box and an altitude; a background has a box; a room has an ordered,
  mutable list of entities and one of backgrounds. The containment tests and the
  window-to-world transform are parameters of the model (\<open>Collaborators\<close>).
\<close>

record Box =
  topLeft :: Vector
  width :: real
  height :: real

record FreeRoamEntity =
  label :: string
  drawBox :: Box
  altitude :: real

record Background =
  box :: Box

record Room =
  entities :: "ref list"
  backgrounds :: "ref list"

record Collaborators =
  windowToWorldCoord :: "Vector \<Rightarrow> Vector"
  polygon_contains :: "Vector list \<Rightarrow> Vector \<Rightarrow> bool"
  box_contains :: "Box \<Rightarrow> Vector \<Rightarrow> bool"

datatype Mode = select | drawBarrier

record MouseEvent =
  clientX :: real
  clientY :: real
  button :: nat
  shiftKey :: bool

text \<open>
  The editor's fields (with \<open>cameraOffset\<close> and \<open>currentRoom\<close> of its base classes),
  followed by the store of the objects it refers to: polygons, entities and backgrounds
  behind references, and the next fresh polygon reference. \<open>indexOf\<close> compares
  references, so two polygons with equal points are still two polygons.
\<close>

record WorldRoomEditor =
  completedPolygons :: "ref list"
  selectedPolygon :: "ref option"
  selectedBgObj :: "ref option"
  selectedEntity :: "ref option"
  mousePos :: Vector
  mouseIsDown :: bool
  mode :: Mode
  dragging :: bool
  cameraOffset :: Vector
  currentRoom :: "Room option"
  polygonObjs :: "ref \<rightharpoonup> Vector list"
  entityObjs :: "ref \<rightharpoonup> FreeRoamEntity"
  backgroundObjs :: "ref \<rightharpoonup> Background"
  nextPolygon :: ref

text \<open>The constructor (lines 871-880), for a room and the store its objects live in.\<close>

definition new_WorldRoomEditor ::
  "Room \<Rightarrow> (ref \<rightharpoonup> FreeRoamEntity) \<Rightarrow> (ref \<rightharpoonup> Background) \<Rightarrow> Vector \<Rightarrow> WorldRoomEditor" where
  "new_WorldRoomEditor room ents bgs cam =
     \<lparr>completedPolygons = [],
      selectedPolygon = None,
      selectedBgObj = None,
      selectedEntity = None,
      mousePos = Vector 0 0,
      mouseIsDown = False,
      mode = drawBarrier,
      dragging = False,
      cameraOffset = cam,
      currentRoom = Some room,
      polygonObjs = Map.empty,
      entityObjs = ents,
      backgroundObjs = bgs,
      nextPolygon = 0\<rparr>"

definition getPoints :: "WorldRoomEditor \<Rightarrow> ref \<Rightarrow> Vector list" where
  "getPoints e p = (case polygonObjs e p of None \<Rightarrow> [] | Some ps \<Rightarrow> ps)"

definition addPoints :: "ref \<Rightarrow> Vector \<Rightarrow> WorldRoomEditor \<Rightarrow> WorldRoomEditor" where
  "addPoints p v e = e\<lparr>polygonObjs := (polygonObjs e)(p \<mapsto> getPoints e p @ [v])\<rparr>"

definition new_Polygon :: "WorldRoomEditor \<Rightarrow> ref \<times> WorldRoomEditor" where
  "new_Polygon e =
     (nextPolygon e,
      e\<lparr>polygonObjs := (polygonObjs e)(nextPolygon e \<mapsto> []), nextPolygon := Suc (nextPolygon e)\<rparr>)"

definition WorldRoomEditor_cancel :: "WorldRoomEditor \<Rightarrow> WorldRoomEditor" where
  "WorldRoomEditor_cancel e =
     e\<lparr>selectedPolygon := None, selectedBgObj := None, selectedEntity := None\<rparr>"

definition world_point :: "Collaborators \<Rightarrow> MouseEvent \<Rightarrow> WorldRoomEditor \<Rightarrow> Vector" where
  "world_point col ev e =
     add_vec (windowToWorldCoord col (Vector (clientX ev) (clientY ev))) (cameraOffset e)"

definition entity_hit :: "Collaborators \<Rightarrow> WorldRoomEditor \<Rightarrow> Vector \<Rightarrow> ref \<Rightarrow> bool" where
  "entity_hit col e v r =
     (case entityObjs e r of None \<Rightarrow> False | Some en \<Rightarrow> box_contains col (drawBox en) v)"

definition background_hit :: "Collaborators \<Rightarrow> WorldRoomEditor \<Rightarrow> Vector \<Rightarrow> ref \<Rightarrow> bool" where
  "background_hit col e v r =
     (case backgroundObjs e r of None \<Rightarrow> False | Some bg \<Rightarrow> box_contains col (box bg) v)"

text \<open>
  \<open>mousedownHandler\<close> (lines 1147-1204). The three search loops return at the first hit;
  the backgrounds are searched from the last to the first.
\<close>

definition WorldRoomEditor_mousedownHandler ::
  "Collaborators \<Rightarrow> MouseEvent \<Rightarrow> WorldRoomEditor \<Rightarrow> WorldRoomEditor" where
  "WorldRoomEditor_mousedownHandler col ev e =
     (let vec = world_point col ev e;
          e1 = e\<lparr>mouseIsDown := True, mousePos := vec\<rparr>
      in if button ev = 2 then e1\<lparr>dragging := True\<rparr>
         else if mode e1 = drawBarrier then
           (let (p, e2) = (case selectedPolygon e1 of
                             None \<Rightarrow> (let (q, e') = new_Polygon e1
                                       in (q, e'\<lparr>selectedPolygon := Some q\<rparr>))
                           | Some q \<Rightarrow> (q, e1));
                e3 = addPoints p vec e2
            in if shiftKey ev
               then (if length (getPoints e3 p) > 2
                     then e3\<lparr>completedPolygons := completedPolygons e3 @ [p],
                             selectedPolygon := None\<rparr>
                     else e3)
               else e3)
         else if mode e1 = select \<and> \<not> shiftKey ev then
           (let e2 = WorldRoomEditor_cancel e1
            in case find (\<lambda>p. polygon_contains col (getPoints e2 p) vec) (completedPolygons e2) of
                 Some p \<Rightarrow> e2\<lparr>selectedPolygon := Some p\<rparr>
               | None \<Rightarrow>
                   (case currentRoom e2 of
                      None \<Rightarrow> e2
                    | Some room \<Rightarrow>
                        (case find (entity_hit col e2 vec) (entities room) of
                           Some en \<Rightarrow> e2\<lparr>selectedEntity := Some en\<rparr>
                         | None \<Rightarrow>
                             (case find (background_hit col e2 vec) (rev (backgrounds room)) of
                                Some bg \<Rightarrow> e2\<lparr>selectedBgObj := Some bg\<rparr>
                              | None \<Rightarrow> e2))))
         else e1)"

definition selectMouseupHandler ::
  "Collaborators \<Rightarrow> MouseEvent \<Rightarrow> WorldRoomEditor \<Rightarrow> WorldRoomEditor" where
  "selectMouseupHandler col ev e =
     e\<lparr>mouseIsDown := False, dragging := False, mousePos := world_point col ev e\<rparr>"

text \<open>A click: the button goes down and up again at the same place.\<close>

definition click :: "Collaborators \<Rightarrow> MouseEvent \<Rightarrow> WorldRoomEditor \<Rightarrow> WorldRoomEditor" where
  "click col ev e = selectMouseupHandler col ev (WorldRoomEditor_mousedownHandler col ev e)"

text \<open>
  \<open>delete\<close> (lines 1209-1234). \<open>indexOf\<close> followed by \<open>splice(index, 1)\<close> removes the
  first occurrence. The polygon branch returns whether or not it removed something; the
  background branch returns only when it removed something.
\<close>

definition delete_entity :: "WorldRoomEditor \<Rightarrow> WorldRoomEditor" where
  "delete_entity e =
     (case currentRoom e of
        None \<Rightarrow> e
      | Some room \<Rightarrow>
          (case selectedEntity e of
             None \<Rightarrow> e
           | Some en \<Rightarrow>
               if en \<in> set (entities room)
               then e\<lparr>currentRoom := Some (room\<lparr>entities := remove1 en (entities room)\<rparr>),
                      selectedEntity := None\<rparr>
               else e))"

definition WorldRoomEditor_delete :: "WorldRoomEditor \<Rightarrow> WorldRoomEditor" where
  "WorldRoomEditor_delete e =
     (case selectedPolygon e of
        Some p \<Rightarrow>
          if p \<in> set (completedPolygons e)
          then e\<lparr>completedPolygons := remove1 p (completedPolygons e), selectedPolygon := None\<rparr>
          else e
      | None \<Rightarrow>
          (case (currentRoom e, selectedBgObj e) of
             (Some room, Some bg) \<Rightarrow>
               if bg \<in> set (backgrounds room)
               then e\<lparr>currentRoom := Some (room\<lparr>backgrounds := remove1 bg (backgrounds room)\<rparr>),
                      selectedBgObj := None\<rparr>
               else delete_entity e
           | _ \<Rightarrow> delete_entity e))"

section \<open>Conditions on a polled gamepad\<close>

text \<open>
  A watched axis reads beyond the dead zone: the index is given and in range, and the
  absolute value of the reading exceeds the dead zone.
\<close>

definition axis_exceeds :: "real \<Rightarrow> Gamepad \<Rightarrow> nat option \<Rightarrow> bool" where
  "axis_exceeds dz gp ai =
     (case ai of None \<Rightarrow> False | Some i \<Rightarrow> i < length (axes gp) \<and> \<bar>axes gp ! i\<bar> > dz)"

text \<open>
  A registered directional has such an axis; a registered button has a gamepad button
  with \<open>value > 0\<close> or \<open>pressed\<close>; a gamepad has one of the two.
\<close>

definition stick_active :: "Gamepad \<Rightarrow> InputManager \<Rightarrow> ref \<Rightarrow> bool" where
  "stick_active gp s dr =
     (case directionalObjs s dr of
        None \<Rightarrow> False
      | Some d \<Rightarrow> axis_exceeds (deadZone s) gp (hAxisIndex d)
                 \<or> axis_exceeds (deadZone s) gp (vAxisIndex d))"

definition button_active :: "Gamepad \<Rightarrow> InputManager \<Rightarrow> ref \<Rightarrow> bool" where
  "button_active gp s br =
     (case buttonObjs s br of
        None \<Rightarrow> False
      | Some b \<Rightarrow> (case gp_button gp (gpButtonIndex b) of
                     None \<Rightarrow> False
                   | Some gb \<Rightarrow> gb_value gb > 0 \<or> pressed gb))"


text \<open>
  What the conditions above read of a manager: the two mappings, the dead zone, and the
  axis and button indices of the objects in the store.
\<close>

definition watch_view ::
  "InputManager \<Rightarrow> (string \<times> ref) list \<times> (string \<times> ref) list \<times> real
     \<times> (ref \<Rightarrow> (nat option \<times> nat option) option) \<times> (ref \<Rightarrow> nat option option)" where
  "watch_view s =
     (directionals s, buttons s, deadZone s,
      (\<lambda>r. map_option (\<lambda>d. (hAxisIndex d, vAxisIndex d)) (directionalObjs s r)),
      (\<lambda>r. map_option gpButtonIndex (buttonObjs s r)))"



section \<open>Sequences of operations on the controls\<close>

text \<open>
  What a client can do to the controls between a \<open>save()\<close> and a \<open>restore()\<close>:
  register and unregister them, enter menu mode, set their callbacks, and let key events
  and steps change their state.
\<close>

datatype control_op =
    RegisterButton string string "nat option"
  | UnregisterButton string
  | RegisterDirectional string string string string string "nat option" "nat option"
  | UnregisterAll
  | EnterMenuMode
  | SetOnPressed string "callback option"
  | SetOnReleased string "callback option"
  | SetDirectionalFunction string callback
  | Keydown string
  | Keyup string
  | Step "Gamepad option list"

fun apply_op :: "control_op \<Rightarrow> InputManager \<Rightarrow> InputManager" where
  "apply_op (RegisterButton name k gp) s = registerButton name k gp s"
| "apply_op (UnregisterButton name) s = unregisterButton name s"
| "apply_op (RegisterDirectional name u r d l h v) s = registerDirectional name u r d l h v s"
| "apply_op UnregisterAll s = unregisterAll s"
| "apply_op EnterMenuMode s = enterMenuMode s"
| "apply_op (SetOnPressed name handler) s = snd (setOnPressed name handler s)"
| "apply_op (SetOnReleased name handler) s = snd (setOnReleased name handler s)"
| "apply_op (SetDirectionalFunction name handler) s = setDirectionalFunction name handler s"
| "apply_op (Keydown k) s = keydownHandler k s"
| "apply_op (Keyup k) s = keyupHandler k s"
| "apply_op (Step gps) s = InputManager_step gps s"

definition run_ops :: "control_op list \<Rightarrow> InputManager \<Rightarrow> InputManager" where
  "run_ops ops s = fold apply_op ops s"

text \<open>The two mappings and the snapshot, which is all that \<open>restore()\<close> reads.\<close>

definition maps_view ::
  "InputManager \<Rightarrow> (string \<times> ref) list \<times> (string \<times> ref) list \<times> SavedControls option" where
  "maps_view s = (buttons s, directionals s, savedControls s)"

text \<open>
  A remapping: give the button \<open>jump\<close> the callback \<open>fly\<close>, drop all controls, and
  register a new button \<open>jump\<close> on the key j.
\<close>

definition remap_ops :: "control_op list" where
  "remap_ops =
     [SetOnPressed ''jump'' (Some (Handler ''fly'')),
      UnregisterAll,
      RegisterButton ''jump'' ''j'' None]"

section \<open>Concrete inputs\<close>

text \<open>
  A directional as its constructor leaves it, with a callback \<open>walk\<close>, and the same
  directional after one step with nothing held and pointing right from then on.
\<close>

definition fresh_directional :: Directional where
  "fresh_directional =
     \<lparr>upButton = 0, rightButton = 1, downButton = 2, leftButton = 3,
      hAxisIndex = None, vAxisIndex = None, vec = Vector 0 0, fn = Handler ''walk'',
      keyDelay = 20, keyRate = 5, keyCounter = 0\<rparr>"

definition held_right :: Directional where
  "held_right = (fst (Directional_step fresh_directional))\<lparr>vec := Vector 1 0\<rparr>"

text \<open>
  The repeat counter after \<open>n\<close> steps of non-zero intent that follow a step of zero
  intent, for \<open>keyDelay = 20\<close> and \<open>keyRate = 5\<close>: it starts at 20, and a step sets it
  to \<open>5 - 1\<close> when it is 0 and decrements it otherwise.
\<close>

primrec held_counter :: "nat \<Rightarrow> int" where
  "held_counter 0 = 20"
| "held_counter (Suc n) = (if held_counter n = 0 then 4 else held_counter n - 1)"

text \<open>
  The calls during a run of steps of non-zero intent that starts with the counter at 20:
  the step with index \<open>i\<close>, counted from 0, calls the callback when \<open>i\<close> is 20, 25,
  30, ...
\<close>

definition schedule :: "Vector list \<Rightarrow> string option list" where
  "schedule vs =
     map (\<lambda>i. if 20 \<le> i \<and> i mod 5 = 0 then Some (fire_label (vs ! i)) else None)
       [0..<length vs]"

text \<open>
  Twenty steps pointing right, one pointing down the \<open>y\<close> axis, four diagonal ones and
  one pointing left.
\<close>

definition held_vectors :: "Vector list" where
  "held_vectors =
     replicate 20 (Vector 1 0) @ [Vector 0 1] @ replicate 4 (Vector 1 1) @ [Vector (- 1) 0]"

text \<open>The button registered under a name, as \<open>this.buttons.get(name)\<close> finds it.\<close>

definition getButton :: "InputManager \<Rightarrow> string \<Rightarrow> Button option" where
  "getButton s name =
     (case map_of (buttons s) name of None \<Rightarrow> None | Some r \<Rightarrow> buttonObjs s r)"

text \<open>
  A manager with one directional, \<open>move\<close>, on the keys w, d, s, a (up, right, down,
  left) whose callback is the function \<open>walk\<close>. Its four buttons are the objects 0 to 3
  and the directional is object 4.
\<close>

definition move_manager :: InputManager where
  "move_manager =
     setDirectionalFunction ''move'' (Handler ''walk'')
       (registerDirectional ''move'' ''w'' ''d'' ''s'' ''a'' None None new_InputManager)"

text \<open>
  The same manager with a button \<open>jump\<close> on the key w as well, whose \<open>onPressed\<close> is the
  function \<open>jump\<close> (object 5), after one step in which nothing is held.
\<close>

definition jump_manager :: InputManager where
  "jump_manager =
     InputManager_step []
       (snd (setOnPressed ''jump'' (Some (Handler ''jump''))
          (registerButton ''jump'' ''w'' None move_manager)))"

text \<open>
  An editor of an empty room, as constructed; the display maps window coordinates to
  themselves, and no polygon or box contains a point.
\<close>

definition example_editor :: WorldRoomEditor where
  "example_editor =
     new_WorldRoomEditor \<lparr>entities = [], backgrounds = []\<rparr> Map.empty Map.empty (Vector 0 0)"

definition example_col :: Collaborators where
  "example_col =
     \<lparr>windowToWorldCoord = (\<lambda>v. v),
      polygon_contains = (\<lambda>ps v. False),
      box_contains = (\<lambda>b v. False)\<rparr>"

text \<open>A press of the left mouse button at a window position, with or without shift.\<close>

definition left_click_at :: "real \<Rightarrow> real \<Rightarrow> bool \<Rightarrow> MouseEvent" where
  "left_click_at a b sh = \<lparr>clientX = a, clientY = b, button = 0, shiftKey = sh\<rparr>"

text \<open>The constructed editor after one, two and three left clicks without shift.\<close>

definition one_click_editor :: WorldRoomEditor where
  "one_click_editor = click example_col (left_click_at 1 1 False) example_editor"

definition two_clicks_editor :: WorldRoomEditor where
  "two_clicks_editor = click example_col (left_click_at 2 0 False) one_click_editor"

definition three_clicks_editor :: WorldRoomEditor where
  "three_clicks_editor = click example_col (left_click_at 5 1 False) two_clicks_editor"

section \<open>Properties of Button\<close>

lemma discrete_update_eq_step: "discrete_update c b = Button_step c b"
  by (cases c) (simp_all add: discrete_update_def Button_down_def Button_up_def Button_step_def)

lemma status_Button_step:
  "status (Button_step c b) = spec_table (wasDown (status b)) c"
  by (simp add: Button_step_def spec_table_def)

lemma wasDown_aged_step: "wasDown (status (ageButton (Button_step c b))) = c"
  by (simp add: ageButton_def Button_step_def)

lemma run_polled_spec: "run_polled cs b = spec_run cs (wasDown (status b))"
  by (induction cs arbitrary: b) (simp_all add: status_Button_step wasDown_aged_step)

lemma run_discrete_polled: "run_discrete cs b = run_polled cs b"
  by (induction cs arbitrary: b) (simp_all add: discrete_update_eq_step)

text \<open>
  C1. Whichever path updates a button in a step, the discrete one (\<open>down()\<close> or
  \<open>up()\<close>) or the polled one (\<open>step(currentlyDown)\<close>), the resulting Status is the row
  of the transition table for the button's \<open>wasDown\<close> and \<open>currentlyDown\<close>: \<open>isDown\<close>
  is \<open>currentlyDown\<close>, \<open>isPressed\<close> is \<open>currentlyDown\<close> and not \<open>wasDown\<close>, \<open>isHeld\<close>
  is \<open>currentlyDown\<close> and \<open>wasDown\<close>, \<open>isReleased\<close> is \<open>wasDown\<close> and not
  \<open>currentlyDown\<close>. The two paths leave the same button behind, and over every sequence
  of updates alternated with aging they show the same Status in every step, which is the
  one the table prescribes.
\<close>

theorem button_paths_match_table:
  "status (Button_step c b) = spec_table (wasDown (status b)) c
   \<and> status (discrete_update c b) = spec_table (wasDown (status b)) c
   \<and> Button_down b = Button_step True b
   \<and> Button_up b = Button_step False b
   \<and> isDown (status (Button_step c b)) = c
   \<and> isPressed (status (Button_step c b)) = (c \<and> \<not> wasDown (status b))
   \<and> isHeld (status (Button_step c b)) = (c \<and> wasDown (status b))
   \<and> isReleased (status (Button_step c b)) = (\<not> c \<and> wasDown (status b))
   \<and> run_discrete cs b = run_polled cs b
   \<and> run_discrete cs b = spec_run cs (wasDown (status b))"
proof -
  have down: "Button_down b = Button_step True b"
    by (simp add: Button_down_def Button_step_def)
  have up: "Button_up b = Button_step False b"
    by (simp add: Button_up_def Button_step_def)
  have fields: "isDown (status (Button_step c b)) = c
      \<and> isPressed (status (Button_step c b)) = (c \<and> \<not> wasDown (status b))
      \<and> isHeld (status (Button_step c b)) = (c \<and> wasDown (status b))
      \<and> isReleased (status (Button_step c b)) = (\<not> c \<and> wasDown (status b))"
    by (simp add: Button_step_def)
  show ?thesis
    using down up fields
    by (simp add: status_Button_step discrete_update_eq_step run_discrete_polled
        run_polled_spec)
qed

section \<open>Properties of Directional\<close>

lemma getMagnitude_zero_iff: "getMagnitude v = 0 \<longleftrightarrow> vec_x v = 0 \<and> vec_y v = 0"
  by (simp add: getMagnitude_def)

lemma Directional_step_idle:
  assumes "getMagnitude (vec d) = 0"
  shows "Directional_step d = (d\<lparr>keyCounter := keyDelay d\<rparr>, None)"
  using assms by (simp add: Directional_step_def)

lemma Directional_step_held:
  assumes "getMagnitude (vec d) \<noteq> 0"
  shows "Directional_step d =
     (d\<lparr>keyCounter := (if keyCounter d = 0 then keyRate d - 1 else keyCounter d - 1)\<rparr>,
      if keyCounter d = 0 then Some (fire_label (vec d)) else None)"
  using assms by (simp add: Directional_step_def)

lemma steps_idle:
  assumes "getMagnitude (vec d) = 0"
  shows "steps (Suc k) d = d\<lparr>keyCounter := keyDelay d\<rparr>"
proof (induction k)
  case 0
  show ?case by (simp add: Directional_step_idle [OF assms])
next
  case (Suc k)
  let ?c = "d\<lparr>keyCounter := keyDelay d\<rparr>"
  have mag: "getMagnitude (vec ?c) = 0" using assms by simp
  have "steps (Suc (Suc k)) d = fst (Directional_step (steps (Suc k) d))"
    by (rule steps.simps(2))
  also have "\<dots> = fst (Directional_step ?c)"
    by (simp only: Suc)
  also have "\<dots> = ?c"
    unfolding Directional_step_idle [OF mag] by simp
  finally show ?case .
qed

lemma fired_idle:
  assumes "getMagnitude (vec d) = 0"
  shows "fired_on (Suc k) d = None"
proof (cases k)
  case 0
  then show ?thesis by (simp add: fired_on_def Directional_step_idle [OF assms])
next
  case (Suc j)
  let ?c = "d\<lparr>keyCounter := keyDelay d\<rparr>"
  have mag: "getMagnitude (vec ?c) = 0" using assms by simp
  have "fired_on (Suc k) d = snd (Directional_step (steps (Suc j) d))"
    using Suc by (simp add: fired_on_def del: steps.simps)
  also have "\<dots> = snd (Directional_step ?c)"
    by (simp only: steps_idle [OF assms])
  also have "\<dots> = None"
    unfolding Directional_step_idle [OF mag] by simp
  finally show ?thesis .
qed

lemma held_counter_early: "n \<le> 20 \<Longrightarrow> held_counter n = 20 - int n"
  by (induction n) simp_all

lemma held_counter_late:
  "held_counter (20 + m) = (if m mod 5 = 0 then 0 else 5 - int (m mod 5))"
proof (induction m)
  case 0
  show ?case using held_counter_early [of 20] by simp
next
  case (Suc m)
  have r: "m mod 5 < 5" by simp
  have "held_counter (20 + Suc m) = (if held_counter (20 + m) = 0 then 4 else held_counter (20 + m) - 1)"
    by (simp only: add_Suc_right held_counter.simps)
  also have "\<dots> = (if Suc m mod 5 = 0 then 0 else 5 - int (Suc m mod 5))"
    unfolding Suc mod_Suc using r by (auto simp del: held_counter.simps)
  finally show ?case .
qed

lemma held_counter_zero: "held_counter n = 0 \<longleftrightarrow> 20 \<le> n \<and> n mod 5 = 0"
proof (cases "n \<le> 20")
  case True
  then show ?thesis by (auto simp: held_counter_early)
next
  case False
  then obtain m where n: "n = 20 + m" and "0 < m"
    by (metis add_diff_inverse_nat nat_le_linear not_less zero_less_diff)
  have r: "m mod 5 < 5" by simp
  have "(20 + m) mod 5 = m mod 5" by (simp add: mod_add_left_eq [symmetric])
  then show ?thesis
    unfolding n held_counter_late using r by (auto simp del: held_counter.simps)
qed

lemma fires_iff: "0 < n \<Longrightarrow> (held_counter (n - 1) = 0) = (21 \<le> n \<and> n mod 5 = 1)"
proof -
  assume "0 < n"
  then obtain k where n: "n = Suc k" by (cases n) auto
  have r: "k mod 5 < 5" by simp
  show ?thesis
    unfolding n held_counter_zero using r by (auto simp: mod_Suc)
qed


lemma steps_held:
  assumes "keyDelay d = 20" "keyRate d = 5" "getMagnitude (vec d) \<noteq> 0" "keyCounter d = 20"
  shows "steps n d = d\<lparr>keyCounter := held_counter n\<rparr>"
proof (induction n)
  case 0
  show ?case using assms(4) by simp
next
  case (Suc n)
  let ?c = "d\<lparr>keyCounter := held_counter n\<rparr>"
  have mag: "getMagnitude (vec ?c) \<noteq> 0" using assms(3) by simp
  have "steps (Suc n) d = fst (Directional_step (steps n d))"
    by (rule steps.simps(2))
  also have "\<dots> = fst (Directional_step ?c)"
    by (simp only: Suc)
  also have "\<dots> = d\<lparr>keyCounter := held_counter (Suc n)\<rparr>"
    unfolding Directional_step_held [OF mag] using assms(2) by simp
  finally show ?case .
qed

lemma fired_held:
  assumes "keyDelay d = 20" "keyRate d = 5" "getMagnitude (vec d) \<noteq> 0" "keyCounter d = 20"
    and "0 < n"
  shows "fired_on n d = (if 21 \<le> n \<and> n mod 5 = 1 then Some (fire_label (vec d)) else None)"
proof -
  let ?c = "d\<lparr>keyCounter := held_counter (n - 1)\<rparr>"
  have mag: "getMagnitude (vec ?c) \<noteq> 0" using assms(3) by simp
  have "fired_on n d = snd (Directional_step ?c)"
    by (simp only: fired_on_def steps_held [OF assms(1-4)])
  also have "\<dots> = (if 21 \<le> n \<and> n mod 5 = 1 then Some (fire_label (vec d)) else None)"
    unfolding Directional_step_held [OF mag] using fires_iff [OF assms(5)] by simp
  finally show ?thesis .
qed

lemma held_right_facts:
  "keyDelay held_right = 20" "keyRate held_right = 5" "getMagnitude (vec held_right) \<noteq> 0"
  "keyCounter held_right = 20" "vec held_right = Vector 1 0"
  by (simp_all add: held_right_def fresh_directional_def Directional_step_def getMagnitude_def)

text \<open>
  C3 (as stated, refuted). A directional with \<open>keyDelay = 20\<close> and \<open>keyRate = 5\<close> is
  stepped once with zero intent and then held to the right. The 20th step of non-zero
  intent fires nothing; the first call of the callback is in the 21st.
\<close>

theorem no_fire_on_20th_held_step:
  "keyDelay fresh_directional = 20 \<and> keyRate fresh_directional = 5
   \<and> getMagnitude (vec fresh_directional) = 0
   \<and> getMagnitude (vec held_right) = 1
   \<and> fired_on 20 held_right = None \<and> fired_on 21 held_right = Some ''right''"
proof -
  have p: "(0::nat) < 20" "(0::nat) < 21" by simp_all
  show ?thesis
    using fired_held [OF held_right_facts(1-4) p(1)] fired_held [OF held_right_facts(1-4) p(2)]
    by (simp add: held_right_facts fire_label_def fresh_directional_def getMagnitude_def)
qed

lemma step_with_idle:
  assumes "getMagnitude z = 0"
  shows "step_with z d = (d\<lparr>vec := z, keyCounter := keyDelay d\<rparr>, None)"
  using assms by (simp add: step_with_def Directional_step_def)

lemma step_with_held:
  assumes "getMagnitude v \<noteq> 0"
  shows "step_with v d =
     (d\<lparr>vec := v, keyCounter := (if keyCounter d = 0 then keyRate d - 1 else keyCounter d - 1)\<rparr>,
      if keyCounter d = 0 then Some (fire_label v) else None)"
  using assms by (simp add: step_with_def Directional_step_def)

lemma step_with_config:
  "keyDelay (fst (step_with v d)) = keyDelay d \<and> keyRate (fst (step_with v d)) = keyRate d"
  by (simp add: step_with_def Directional_step_def)

lemma run_steps_config:
  "keyDelay (run_steps vs d) = keyDelay d \<and> keyRate (run_steps vs d) = keyRate d"
  by (induction vs arbitrary: d) (simp_all add: step_with_config)

lemma run_steps_append: "run_steps (xs @ ys) d = run_steps ys (run_steps xs d)"
  by (induction xs arbitrary: d) simp_all

lemma fired_labels_append:
  "fired_labels (xs @ ys) d = fired_labels xs d @ fired_labels ys (run_steps xs d)"
  by (induction xs arbitrary: d) simp_all

lemma length_fired_labels [simp]: "length (fired_labels vs d) = length vs"
  by (induction vs arbitrary: d) simp_all

lemma fired_labels_idle:
  assumes "\<forall>z \<in> set zs. getMagnitude z = 0"
  shows "fired_labels zs d = replicate (length zs) None"
  using assms by (induction zs arbitrary: d) (simp_all add: step_with_idle)

lemma run_steps_idle:
  assumes "\<forall>z \<in> set zs. getMagnitude z = 0" and "zs \<noteq> []"
  shows "keyCounter (run_steps zs d) = keyDelay d"
  using assms
proof (induction zs arbitrary: d)
  case Nil
  then show ?case by simp
next
  case (Cons z zs)
  have z: "getMagnitude z = 0" using Cons.prems(1) by simp
  show ?case
  proof (cases "zs = []")
    case True
    then show ?thesis by (simp add: step_with_idle [OF z])
  next
    case False
    have "keyCounter (run_steps zs (fst (step_with z d))) = keyDelay (fst (step_with z d))"
      using Cons.prems(1) False by (intro Cons.IH) simp_all
    then show ?thesis by (simp add: step_with_config)
  qed
qed

lemma run_steps_held:
  assumes "\<forall>v \<in> set vs. getMagnitude v \<noteq> 0" and "keyRate d = 5"
    and "keyCounter d = held_counter m"
  shows "keyCounter (run_steps vs d) = held_counter (m + length vs)"
  using assms
proof (induction vs arbitrary: d m)
  case Nil
  then show ?case by simp
next
  case (Cons v vs)
  have v: "getMagnitude v \<noteq> 0" using Cons.prems(1) by simp
  let ?d = "fst (step_with v d)"
  have c: "keyCounter ?d = held_counter (Suc m)"
    using Cons.prems(2,3) by (simp add: step_with_held [OF v])
  have r: "keyRate ?d = 5" using Cons.prems(2) by (simp add: step_with_config)
  have "keyCounter (run_steps vs ?d) = held_counter (Suc m + length vs)"
    using Cons.prems(1) r c by (intro Cons.IH) simp_all
  then show ?case by simp
qed

lemma fired_labels_held_nth:
  assumes "\<forall>v \<in> set vs. getMagnitude v \<noteq> 0" and "keyRate d = 5"
    and "keyCounter d = held_counter m" and "i < length vs"
  shows "fired_labels vs d ! i =
           (if held_counter (m + i) = 0 then Some (fire_label (vs ! i)) else None)"
  using assms
proof (induction vs arbitrary: d m i)
  case Nil
  then show ?case by simp
next
  case (Cons v vs)
  have v: "getMagnitude v \<noteq> 0" using Cons.prems(1) by simp
  let ?d = "fst (step_with v d)"
  show ?case
  proof (cases i)
    case 0
    then show ?thesis using Cons.prems(3) by (simp add: step_with_held [OF v])
  next
    case (Suc j)
    have c: "keyCounter ?d = held_counter (Suc m)"
      using Cons.prems(2,3) by (simp add: step_with_held [OF v])
    have r: "keyRate ?d = 5" using Cons.prems(2) by (simp add: step_with_config)
    have j: "j < length vs" using Cons.prems(4) Suc by simp
    have "fired_labels vs ?d ! j =
        (if held_counter (Suc m + j) = 0 then Some (fire_label (vs ! j)) else None)"
      using Cons.prems(1) r c j by (intro Cons.IH) simp_all
    then show ?thesis using Suc by simp
  qed
qed

lemma fired_labels_held:
  assumes "\<forall>v \<in> set vs. getMagnitude v \<noteq> 0" and "keyRate d = 5" and "keyCounter d = 20"
  shows "fired_labels vs d = schedule vs"
proof (rule nth_equalityI)
  show "length (fired_labels vs d) = length (schedule vs)"
    by (simp add: schedule_def)
next
  fix i
  assume "i < length (fired_labels vs d)"
  then have i: "i < length vs" by simp
  have c: "keyCounter d = held_counter 0" using assms(3) by simp
  have "fired_labels vs d ! i = (if held_counter (0 + i) = 0 then Some (fire_label (vs ! i)) else None)"
    using assms(1,2) c i by (rule fired_labels_held_nth)
  also have "\<dots> = schedule vs ! i"
    unfolding schedule_def using i by (simp add: held_counter_zero del: held_counter.simps)
  finally show "fired_labels vs d ! i = schedule vs ! i" .
qed

text \<open>
  C3 (amended). Take a directional with \<open>keyDelay = 20\<close> and \<open>keyRate = 5\<close>, in any
  state, and step it with an intent vector of magnitude 0 for at least one step, then with
  vectors of non-zero magnitude (they may change from step to step), then with vectors of
  magnitude 0 again. The steps of zero intent fire nothing and leave the repeat counter at
  \<open>keyDelay\<close>. Of the steps of non-zero intent the first 20 fire nothing; the callback is
  called for the first time in the 21st and then in every 5th step after it (the 21st,
  26th, 31st, ...: the steps 20, 25, 30, ... when the first step of non-zero intent is
  counted as step 0), with the label of that step's vector. No step fires after the vector
  is back at magnitude 0, and the counter is back at \<open>keyDelay\<close>.
\<close>

theorem key_repeat_schedule:
  assumes "keyDelay d = 20" and "keyRate d = 5"
    and "zs \<noteq> []" and "\<forall>z \<in> set zs. getMagnitude z = 0"
    and "\<forall>v \<in> set vs. getMagnitude v \<noteq> 0"
    and "\<forall>w \<in> set ws. getMagnitude w = 0"
  shows "fired_labels (zs @ vs @ ws) d =
           replicate (length zs) None
           @ map (\<lambda>i. if 20 \<le> i \<and> i mod 5 = 0 then Some (fire_label (vs ! i)) else None)
               [0..<length vs]
           @ replicate (length ws) None
     \<and> keyCounter (run_steps zs d) = keyDelay d
     \<and> (ws \<noteq> [] \<longrightarrow> keyCounter (run_steps (zs @ vs @ ws) d) = keyDelay d)"
proof -
  let ?idle = "run_steps zs d"
  have cfg: "keyDelay ?idle = 20" "keyRate ?idle = 5"
    using assms(1,2) by (simp_all add: run_steps_config)
  have cnt: "keyCounter ?idle = 20"
    using run_steps_idle [OF assms(4,3), of d] assms(1) by simp
  have 1: "fired_labels zs d = replicate (length zs) None"
    using assms(4) by (rule fired_labels_idle)
  have 2: "fired_labels vs ?idle = schedule vs"
    using assms(5) cfg(2) cnt by (rule fired_labels_held)
  have 3: "fired_labels ws (run_steps vs ?idle) = replicate (length ws) None"
    using assms(6) by (rule fired_labels_idle)
  have 4: "ws \<noteq> [] \<longrightarrow> keyCounter (run_steps (zs @ vs @ ws) d) = keyDelay d"
    using run_steps_idle [OF assms(6), of "run_steps vs ?idle"]
    by (simp add: run_steps_append run_steps_config)
  show ?thesis
    using 1 2 3 4 cnt assms(1)
    by (simp add: fired_labels_append run_steps_append schedule_def)
qed

text \<open>
  The theorem at a directional as constructed: one idle step, the 26 held steps of
  \<open>held_vectors\<close> and two steps after release. Position \<open>n\<close> of the list is the \<open>n\<close>-th
  held step: nothing in the 20th, a call in the 21st and the 26th, none in the 25th and
  none after release.
\<close>

theorem key_repeat_schedule_witness:
  "keyDelay fresh_directional = 20 \<and> keyRate fresh_directional = 5
   \<and> [Vector 0 0] \<noteq> []
   \<and> getMagnitude (Vector 0 0) = 0
   \<and> length held_vectors = 26
   \<and> fired_labels ([Vector 0 0] @ held_vectors @ [Vector 0 0, Vector 0 0]) fresh_directional ! 0
        = None
   \<and> fired_labels ([Vector 0 0] @ held_vectors @ [Vector 0 0, Vector 0 0]) fresh_directional ! 20
        = None
   \<and> fired_labels ([Vector 0 0] @ held_vectors @ [Vector 0 0, Vector 0 0]) fresh_directional ! 21
        = Some ''up''
   \<and> fired_labels ([Vector 0 0] @ held_vectors @ [Vector 0 0, Vector 0 0]) fresh_directional ! 25
        = None
   \<and> fired_labels ([Vector 0 0] @ held_vectors @ [Vector 0 0, Vector 0 0]) fresh_directional ! 26
        = Some ''left''
   \<and> fired_labels ([Vector 0 0] @ held_vectors @ [Vector 0 0, Vector 0 0]) fresh_directional ! 27
        = None
   \<and> keyCounter (run_steps [Vector 0 0] fresh_directional) = 20
   \<and> keyCounter (run_steps ([Vector 0 0] @ held_vectors @ [Vector 0 0, Vector 0 0])
         fresh_directional) = 20"
proof -
  have h: "keyDelay fresh_directional = 20" "keyRate fresh_directional = 5"
    "[Vector 0 0] \<noteq> []" "\<forall>z \<in> set [Vector 0 0]. getMagnitude z = 0"
    "\<forall>v \<in> set held_vectors. getMagnitude v \<noteq> 0"
    "\<forall>w \<in> set [Vector 0 0, Vector 0 0]. getMagnitude w = 0"
    by (simp_all add: fresh_directional_def getMagnitude_def held_vectors_def)
  have len: "length held_vectors = 26" by (simp add: held_vectors_def)
  have v20: "held_vectors ! 20 = Vector 0 1" and v25: "held_vectors ! 25 = Vector (- 1) 0"
    by (simp_all add: held_vectors_def nth_append)
  show ?thesis
    using key_repeat_schedule [OF h] h(1,2) len v20 v25
    by (simp add: getMagnitude_def nth_append fire_label_def)
qed

text \<open>
  Without a step of zero intent before it the schedule is another one: a directional as
  constructed has the counter at 0, so when it is held before its first step the callback
  is called in the first held step and in every 5th after it.
\<close>

lemma fresh_press_fires_at_once:
  "fired_labels [Vector 1 0, Vector 1 0, Vector 1 0, Vector 1 0, Vector 1 0, Vector 1 0]
     fresh_directional = [Some ''right'', None, None, None, None, Some ''right'']"
  by (simp add: step_with_def Directional_step_def fresh_directional_def getMagnitude_def
      fire_label_def)

section \<open>Properties of the Input Manager\<close>

lemma fold_push_snd: "fold (\<lambda>(name, but) out. out @ [but]) m acc = acc @ map snd m"
  by (induction m arbitrary: acc) (auto split: prod.splits)

lemma fold_keep: "fold (\<lambda>(name, dr) out. out) m acc = acc"
  by (induction m arbitrary: acc) (auto split: prod.splits)

text \<open>The buttons of the directionals are not among the buttons \<open>getAllButtons\<close> returns.\<close>

lemma getAllButtons_eq: "getAllButtons s = map snd (buttons s)"
  by (simp add: getAllButtons_def fold_push_snd fold_keep)

lemma buttonObjs_update_Button:
  "buttonObjs (update_Button a f s) r =
     (if r = a then map_option f (buttonObjs s a) else buttonObjs s r)"
  by (simp add: update_Button_def split: option.splits)

lemma fold_update_Button_idem:
  assumes "\<And>b. f (f b) = f b"
  shows "buttonObjs (fold (\<lambda>r s. update_Button r f s) rs s) r =
           (if r \<in> set rs then map_option f (buttonObjs s r) else buttonObjs s r)"
proof (induction rs arbitrary: s)
  case Nil
  then show ?case by simp
next
  case (Cons a rs)
  show ?case
    by (cases "buttonObjs s a")
      (simp_all add: Cons.IH buttonObjs_update_Button assms option.map_comp comp_def)
qed

lemma ageButton_idem: "ageButton (ageButton b) = ageButton b"
  by (simp add: ageButton_def)

lemmas fold_ageButton = fold_update_Button_idem [where f = ageButton, OF ageButton_idem]

text \<open>
  C9. The aging pass sets, for every button it ages (every registered button), \<open>isHeld\<close>
  to \<open>isDown\<close>, besides rolling \<open>wasDown\<close> and clearing the two edges: a button that is
  still down reports \<open>isHeld\<close> right after aging, with no \<open>down()\<close> or \<open>step()\<close> in
  between.
\<close>

theorem ageButtons_sets_isHeld:
  assumes "(name, r) \<in> set (buttons s)" and "buttonObjs s r = Some b"
  shows "buttonObjs (ageButtons s) r = Some (ageButton b)
     \<and> isHeld (status (ageButton b)) = isDown (status b)
     \<and> isDown (status (ageButton b)) = isDown (status b)
     \<and> wasDown (status (ageButton b)) = isDown (status b)
     \<and> \<not> isPressed (status (ageButton b))
     \<and> \<not> isReleased (status (ageButton b))"
proof -
  have "r \<in> set (map snd (buttons s))"
    using assms(1) by force
  then have "buttonObjs (ageButtons s) r = map_option ageButton (buttonObjs s r)"
    unfolding ageButtons_def getAllButtons_eq by (simp add: fold_ageButton)
  then show ?thesis
    using assms(2) by (simp add: ageButton_def)
qed

lemmas reg_defs = enterMenuMode_def registerButton_def registerDirectional_def unregisterAll_def
  new_Directional_def alloc_Button_def alloc_Directional_def setOnPressed_def update_Button_def
  new_Button_def handler_or_noOp_def getButton_def new_Status_def setDirectionalFunction_def
  update_Directional_def

lemmas step_defs = InputManager_step_def getGamepadInput_def stepDirectional_def
  Directional_step_def fireButton_def ageButtons_def getAllButtons_eq keydownHandler_def
  keyDirectional_def keyButton_def dirButtons_def getButtons_def button_key_def
  setVecFromButtons_def button_isDown_def Button_down_def ageButton_def normalize_def
  getMagnitude_def fire_label_def

lemma move_manager_full:
  "move_manager = new_InputManager
     \<lparr>directionals := [(''move'', 4)],
      buttonObjs := [0 \<mapsto> new_Button ''w'' None, 1 \<mapsto> new_Button ''d'' None,
                     2 \<mapsto> new_Button ''s'' None, 3 \<mapsto> new_Button ''a'' None],
      directionalObjs :=
        [4 \<mapsto> \<lparr>upButton = 0, rightButton = 1, downButton = 2, leftButton = 3,
               hAxisIndex = None, vAxisIndex = None, vec = Vector 0 0, fn = Handler ''walk'',
               keyDelay = 20, keyRate = 5, keyCounter = 0\<rparr>],
      nextRef := 5\<rparr>"
  by (simp add: move_manager_def registerDirectional_def new_Directional_def alloc_Button_def
      alloc_Directional_def setDirectionalFunction_def update_Directional_def
      new_InputManager_def Let_def eval_nat_numeral)

lemma jump_manager_full:
  "jump_manager = new_InputManager
     \<lparr>directionals := [(''move'', 4)],
      buttons := [(''jump'', 5)],
      buttonObjs := [0 \<mapsto> new_Button ''w'' None, 1 \<mapsto> new_Button ''d'' None,
                     2 \<mapsto> new_Button ''s'' None, 3 \<mapsto> new_Button ''a'' None,
                     5 \<mapsto> (new_Button ''w'' None)\<lparr>onPressed := Handler ''jump''\<rparr>],
      directionalObjs :=
        [4 \<mapsto> \<lparr>upButton = 0, rightButton = 1, downButton = 2, leftButton = 3,
               hAxisIndex = None, vAxisIndex = None, vec = Vector 0 0, fn = Handler ''walk'',
               keyDelay = 20, keyRate = 5, keyCounter = 20\<rparr>],
      nextRef := 6\<rparr>"
  unfolding jump_manager_def move_manager_full
  by (simp add: reg_defs new_InputManager_def Let_def step_defs eval_nat_numeral)

lemma keydown_w_jump_manager:
  "keydownHandler ''w'' jump_manager = new_InputManager
     \<lparr>directionals := [(''move'', 4)],
      buttons := [(''jump'', 5)],
      usingKeyboard := True,
      buttonObjs := [0 \<mapsto> Button_down (new_Button ''w'' None), 1 \<mapsto> new_Button ''d'' None,
                     2 \<mapsto> new_Button ''s'' None, 3 \<mapsto> new_Button ''a'' None,
                     5 \<mapsto> Button_down ((new_Button ''w'' None)\<lparr>onPressed := Handler ''jump''\<rparr>)],
      directionalObjs :=
        [4 \<mapsto> \<lparr>upButton = 0, rightButton = 1, downButton = 2, leftButton = 3,
               hAxisIndex = None, vAxisIndex = None, vec = Vector 0 (- 1), fn = Handler ''walk'',
               keyDelay = 20, keyRate = 5, keyCounter = 20\<rparr>],
      nextRef := 6\<rparr>"
  unfolding jump_manager_full
  by (simp add: reg_defs new_InputManager_def Let_def step_defs eval_nat_numeral fun_eq_iff)

text \<open>
  A button held since the step before a registered button was aged shows \<open>isHeld\<close>: the
  theorem at the button \<open>jump\<close>, held down by the key w.
\<close>

theorem ageButtons_sets_isHeld_witness:
  "(''jump'', 5) \<in> set (buttons (keydownHandler ''w'' jump_manager))
   \<and> map_option (isDown \<circ> status) (buttonObjs (keydownHandler ''w'' jump_manager) 5) = Some True
   \<and> map_option (isHeld \<circ> status) (buttonObjs (keydownHandler ''w'' jump_manager) 5) = Some False
   \<and> map_option (isHeld \<circ> status)
        (buttonObjs (ageButtons (keydownHandler ''w'' jump_manager)) 5) = Some True"
proof -
  let ?s = "keydownHandler ''w'' jump_manager"
  let ?b = "Button_down ((new_Button ''w'' None)\<lparr>onPressed := Handler ''jump''\<rparr>)"
  have reg: "(''jump'', 5) \<in> set (buttons ?s)"
    by (simp add: keydown_w_jump_manager)
  have obj: "buttonObjs ?s 5 = Some ?b"
    by (simp add: keydown_w_jump_manager)
  show ?thesis
    using ageButtons_sets_isHeld [OF reg obj] reg obj
    by (simp add: ageButton_def Button_down_def new_Button_def new_Status_def)
qed

text \<open>
  C2 (what the code does). The key w is both the up key of the directional \<open>move\<close>
  (button object 0) and the key of the registered button \<open>jump\<close> (object 5). After a
  keydown of w both have their \<open>isPressed\<close> edge set. The next step calls \<open>onPressed\<close> for
  \<open>jump\<close> only and ages \<open>jump\<close> only: the directional's button is not called and keeps
  its edge, with \<open>wasDown\<close> still false.
\<close>

theorem step_skips_directional_buttons:
  "map_option upButton (directionalObjs (keydownHandler ''w'' jump_manager) 4) = Some 0
   \<and> map_option status (buttonObjs (keydownHandler ''w'' jump_manager) 0) =
       Some \<lparr>isDown = True, wasDown = False, isPressed = True, isHeld = False, isReleased = False\<rparr>
   \<and> map_option status (buttonObjs (keydownHandler ''w'' jump_manager) 5) =
       Some \<lparr>isDown = True, wasDown = False, isPressed = True, isHeld = False, isReleased = False\<rparr>
   \<and> getAllButtons (keydownHandler ''w'' jump_manager) = [5]
   \<and> trace (InputManager_step [] (keydownHandler ''w'' jump_manager)) = [Call (Handler ''jump'')]
   \<and> map_option status (buttonObjs (InputManager_step [] (keydownHandler ''w'' jump_manager)) 5) =
       Some \<lparr>isDown = True, wasDown = True, isPressed = False, isHeld = True, isReleased = False\<rparr>
   \<and> map_option status (buttonObjs (InputManager_step [] (keydownHandler ''w'' jump_manager)) 0) =
       Some \<lparr>isDown = True, wasDown = False, isPressed = True, isHeld = False, isReleased = False\<rparr>"
  unfolding keydown_w_jump_manager
  by (simp add: reg_defs new_InputManager_def Let_def step_defs)

text \<open>
  When the vertical axis dominates (ties included), a positive \<open>y\<close> is labelled \<open>up\<close> and
  any other \<open>y\<close> is labelled \<open>down\<close>.
\<close>

lemma fire_label_vertical:
  "\<bar>vec_x v\<bar> \<le> \<bar>vec_y v\<bar> \<Longrightarrow> fire_label v = (if vec_y v > 0 then ''up'' else ''down'')"
  by (simp add: fire_label_def)

lemma fire_label_horizontal:
  "\<bar>vec_x v\<bar> > \<bar>vec_y v\<bar> \<Longrightarrow> fire_label v = (if vec_x v > 0 then ''right'' else ''left'')"
  by (simp add: fire_label_def)

text \<open>
  C7 (what the code does). With the directional \<open>move\<close> on the keys w, d, s, a, a keydown
  of the down key s sets the intent vector to \<open>(0, 1)\<close>, down being \<open>+y\<close>. The next step
  fires the callback \<open>walk\<close> with the label \<open>up\<close>. A keydown of the up key w sets the
  vector to \<open>(0, -1)\<close> and fires with the label \<open>down\<close>.
\<close>

theorem down_key_fires_up_label:
  "map_option downButton (directionalObjs move_manager 4) = Some 2
   \<and> map_option key (buttonObjs move_manager 2) = Some ''s''
   \<and> map_option vec (directionalObjs (keydownHandler ''s'' move_manager) 4) = Some (Vector 0 1)
   \<and> trace (InputManager_step [] (keydownHandler ''s'' move_manager)) =
       [CallDir (Handler ''walk'') ''up'']
   \<and> map_option vec (directionalObjs (keydownHandler ''w'' move_manager) 4) = Some (Vector 0 (- 1))
   \<and> trace (InputManager_step [] (keydownHandler ''w'' move_manager)) =
       [CallDir (Handler ''walk'') ''down'']"
  unfolding move_manager_full
  by (simp add: reg_defs new_InputManager_def Let_def step_defs)

lemma enterMenuMode_full:
  "enterMenuMode s =
     (let n = nextRef s; m = menuNavigationInputs s in
      s\<lparr>buttons := [(''enter'', n + 5), (''cancel'', n + 6), (''fullscreen'', n + 7)],
        directionals := [(''navigation'', n + 4)],
        buttonObjs := (buttonObjs s)
          (n \<mapsto> new_Button (nav_up m) None,
           n + 1 \<mapsto> new_Button (nav_right m) None,
           n + 2 \<mapsto> new_Button (nav_down m) None,
           n + 3 \<mapsto> new_Button (nav_left m) None,
           n + 5 \<mapsto> new_Button (clickKey m) (clickGP m),
           n + 6 \<mapsto> new_Button (clickKey m) (clickGP m),
           n + 7 \<mapsto> (new_Button (fullscreenKey m) (fullscreenGP m))\<lparr>onPressed := toggleFullScreen\<rparr>),
        directionalObjs := (directionalObjs s)
          (n + 4 \<mapsto> \<lparr>upButton = n, rightButton = n + 1, downButton = n + 2, leftButton = n + 3,
               hAxisIndex = hAxis m, vAxisIndex = vAxis m, vec = Vector 0 0, fn = noOp,
               keyDelay = 20, keyRate = 5, keyCounter = 0\<rparr>),
        nextRef := n + 8\<rparr>)"
  by (simp add: enterMenuMode_def registerButton_def registerDirectional_def unregisterAll_def
  new_Directional_def alloc_Button_def alloc_Directional_def setOnPressed_def update_Button_def
  handler_or_noOp_def Let_def eval_nat_numeral)


lemma enterMenuMode_cancel:
  "map_option key (getButton (enterMenuMode s) ''cancel'') = Some (clickKey (menuNavigationInputs s))
   \<and> map_option gpButtonIndex (getButton (enterMenuMode s) ''cancel'') =
       Some (clickGP (menuNavigationInputs s))"
  by (simp add: enterMenuMode_full getButton_def new_Button_def Let_def)

text \<open>
  C8 (what the code does). After \<open>enterMenuMode()\<close> on the manager as constructed, the
  controls are the directional \<open>navigation\<close> and the buttons \<open>enter\<close>, \<open>cancel\<close> and
  \<open>fullscreen\<close>. The button \<open>cancel\<close> has the key and gamepad index of \<open>enter\<close>
  (\<open>clickKey\<close> space, \<open>clickGP\<close> 4), not the configured \<open>cancelKey\<close> tab and \<open>cancelGP\<close> 3.
\<close>

theorem enterMenuMode_binds_cancel_to_click:
  "map fst (directionals (enterMenuMode new_InputManager)) = [''navigation'']
   \<and> map fst (buttons (enterMenuMode new_InputManager)) = [''enter'', ''cancel'', ''fullscreen'']
   \<and> cancelKey (menuNavigationInputs new_InputManager) = ''tab''
   \<and> cancelGP (menuNavigationInputs new_InputManager) = Some 3
   \<and> map_option key (getButton (enterMenuMode new_InputManager) ''cancel'') = Some ''space''
   \<and> map_option gpButtonIndex (getButton (enterMenuMode new_InputManager) ''cancel'') = Some (Some 4)
   \<and> map_option key (getButton (enterMenuMode new_InputManager) ''enter'') = Some ''space''
   \<and> map_option gpButtonIndex (getButton (enterMenuMode new_InputManager) ''enter'') = Some (Some 4)
   \<and> map_option key (getButton (enterMenuMode new_InputManager) ''fullscreen'') = Some ''f''
   \<and> map_option onPressed (getButton (enterMenuMode new_InputManager) ''fullscreen'') =
       Some toggleFullScreen"
  by (simp add: enterMenuMode_full getButton_def new_Button_def Let_def new_InputManager_def)

subsection \<open>Keyboard and gamepad authority\<close>

lemma fold_invariant:
  assumes "\<And>x s. g (f x s) = g s"
  shows "g (fold f xs s) = g s"
  by (induction xs arbitrary: s) (simp_all add: assms)

lemma usingKeyboard_update_Button [simp]:
  "usingKeyboard (update_Button r f s) = usingKeyboard s"
  by (simp add: update_Button_def split: option.splits)

lemma usingKeyboard_update_Directional [simp]:
  "usingKeyboard (update_Directional r f s) = usingKeyboard s"
  by (simp add: update_Directional_def split: option.splits)

lemma usingKeyboard_keyDirectional [simp]:
  "usingKeyboard (keyDirectional k f dr s) = usingKeyboard s"
  unfolding keyDirectional_def
  by (rule fold_invariant) (simp add: setVecFromButtons_def)

lemma usingKeyboard_keyButton [simp]:
  "usingKeyboard (keyButton k f br s) = usingKeyboard s"
  by (simp add: keyButton_def)



lemma usingKeyboard_readStick [simp]: "usingKeyboard (readStick gp dr s) = usingKeyboard s"
  by (simp add: readStick_def)

lemma usingKeyboard_readButton [simp]: "usingKeyboard (readButton gp br s) = usingKeyboard s"
  by (simp add: readButton_def split: option.splits)

lemma watch_view_flag [simp]: "watch_view (s\<lparr>usingKeyboard := b\<rparr>) = watch_view s"
  by (simp add: watch_view_def)

lemma watch_view_update_Button:
  assumes "\<And>b. gpButtonIndex (f b) = gpButtonIndex b"
  shows "watch_view (update_Button r f s) = watch_view s"
  by (auto simp: watch_view_def update_Button_def fun_eq_iff assms split: option.splits)

lemma watch_view_update_Directional:
  assumes "\<And>d. hAxisIndex (f d) = hAxisIndex d" "\<And>d. vAxisIndex (f d) = vAxisIndex d"
  shows "watch_view (update_Directional r f s) = watch_view s"
  by (auto simp: watch_view_def update_Directional_def fun_eq_iff assms split: option.splits)

lemma watch_view_checkStick [simp]: "watch_view (checkStick gp dr s) = watch_view s"
  by (simp add: checkStick_def Let_def split: option.splits)

lemma watch_view_checkButton [simp]: "watch_view (checkButton gp br s) = watch_view s"
  by (simp add: checkButton_def split: option.splits)

lemma watch_view_readStick [simp]: "watch_view (readStick gp dr s) = watch_view s"
  unfolding readStick_def by (rule watch_view_update_Directional) (simp_all add: Let_def)

lemma watch_view_readButton [simp]: "watch_view (readButton gp br s) = watch_view s"
  by (simp add: readButton_def watch_view_update_Button Button_step_def split: option.splits)

lemma watch_view_pollGamepad [simp]: "watch_view (pollGamepad g s) = watch_view s"
  by (simp add: pollGamepad_def Let_def fold_invariant [where g = watch_view] split: option.splits)

lemma watch_view_getGamepadInput: "watch_view (getGamepadInput gps s) = watch_view s"
  by (simp add: getGamepadInput_def fold_invariant [where g = watch_view])






lemma stick_active_flag [simp]: "stick_active gp (s\<lparr>usingKeyboard := b\<rparr>) dr = stick_active gp s dr"
  by (simp add: stick_active_def split: option.splits)

lemma button_active_flag [simp]: "button_active gp (s\<lparr>usingKeyboard := b\<rparr>) br = button_active gp s br"
  by (simp add: button_active_def split: option.splits)
















subsection \<open>Save and restore\<close>

lemma update_fresh: "k \<notin> fst ` set al \<Longrightarrow> AList.update k v al = al @ [(k, v)]"
  by (induction al) auto

lemma fold_update_distinct:
  assumes "distinct (map fst m)" and "fst ` set acc \<inter> fst ` set m = {}"
  shows "fold (\<lambda>(k, v) out. AList.update k v out) m acc = acc @ m"
  using assms
proof (induction m arbitrary: acc)
  case Nil
  then show ?case by simp
next
  case (Cons p m)
  obtain k v where p: "p = (k, v)" by (cases p)
  have fresh: "k \<notin> fst ` set acc" using Cons.prems(2) p by auto
  have d: "distinct (map fst m)" using Cons.prems(1) by simp
  have disj: "fst ` set (acc @ [(k, v)]) \<inter> fst ` set m = {}"
    using Cons.prems p by auto
  show ?case
    using Cons.IH [OF d disj] by (simp add: p update_fresh [OF fresh])
qed

lemma copy_Map_distinct: "distinct (map fst m) \<Longrightarrow> copy_Map m = m"
  using fold_update_distinct [of m "[]"] by (simp add: copy_Map_def)

lemma maps_view_objs [simp]:
  "maps_view (s\<lparr>buttonObjs := bo\<rparr>) = maps_view s"
  "maps_view (s\<lparr>directionalObjs := dos\<rparr>) = maps_view s"
  "maps_view (s\<lparr>trace := tr\<rparr>) = maps_view s"
  "maps_view (s\<lparr>usingKeyboard := uk\<rparr>) = maps_view s"
  by (simp_all add: maps_view_def)

lemma maps_view_update_Button [simp]:
  "maps_view (update_Button r f s) = maps_view s"
  by (simp add: update_Button_def split: option.splits)

lemma maps_view_update_Directional [simp]:
  "maps_view (update_Directional r f s) = maps_view s"
  by (simp add: update_Directional_def split: option.splits)

lemma savedControls_registerButton [simp]:
  "savedControls (registerButton name k gp s) = savedControls s"
  by (simp add: registerButton_def alloc_Button_def)

lemma savedControls_registerDirectional [simp]:
  "savedControls (registerDirectional name u r d l h v s) = savedControls s"
  by (simp add: registerDirectional_def new_Directional_def alloc_Button_def
      alloc_Directional_def Let_def)

lemma maps_view_setOnPressed [simp]:
  "maps_view (snd (setOnPressed name handler s)) = maps_view s"
  by (simp add: setOnPressed_def split: option.splits)

lemma maps_view_setOnReleased [simp]:
  "maps_view (snd (setOnReleased name handler s)) = maps_view s"
  by (simp add: setOnReleased_def split: option.splits)

lemma savedControls_enterMenuMode [simp]:
  "savedControls (enterMenuMode s) = savedControls s"
  by (simp add: enterMenuMode_full Let_def)

lemma maps_view_keyDirectional [simp]:
  "maps_view (keyDirectional k f dr s) = maps_view s"
  unfolding keyDirectional_def
  by (rule fold_invariant) (simp add: setVecFromButtons_def)

lemma maps_view_keydownHandler [simp]:
  "maps_view (keydownHandler k s) = maps_view s"
  by (simp add: keydownHandler_def keyButton_def Let_def fold_invariant [where g = maps_view])

lemma maps_view_keyupHandler [simp]:
  "maps_view (keyupHandler k s) = maps_view s"
  by (simp add: keyupHandler_def keyButton_def Let_def fold_invariant [where g = maps_view])

lemma maps_view_stepDirectional [simp]:
  "maps_view (stepDirectional dr s) = maps_view s"
  by (simp add: stepDirectional_def Let_def split: option.splits)

lemma maps_view_pollGamepad [simp]:
  "maps_view (pollGamepad g s) = maps_view s"
proof -
  have a: "\<And>gp dr s. maps_view (checkStick gp dr s) = maps_view s"
    by (simp add: checkStick_def Let_def split: option.splits)
  have b: "\<And>gp br s. maps_view (checkButton gp br s) = maps_view s"
    by (simp add: checkButton_def split: option.splits)
  have c: "\<And>gp dr s. maps_view (readStick gp dr s) = maps_view s"
    by (simp add: readStick_def)
  have d: "\<And>gp br s. maps_view (readButton gp br s) = maps_view s"
    by (simp add: readButton_def split: option.splits)
  show ?thesis
    by (simp add: pollGamepad_def Let_def a b c d fold_invariant [where g = maps_view]
        split: option.splits)
qed

lemma maps_view_fireButton [simp]:
  "maps_view (fireButton r s) = maps_view s"
  by (simp add: fireButton_def Let_def split: option.splits)

lemma maps_view_InputManager_step [simp]:
  "maps_view (InputManager_step gps s) = maps_view s"
  by (simp add: InputManager_step_def getGamepadInput_def ageButtons_def Let_def
      fold_invariant [where g = maps_view])

lemma maps_view_fields:
  assumes "maps_view s' = maps_view s"
  shows "buttons s' = buttons s" and "directionals s' = directionals s"
    and "savedControls s' = savedControls s"
  using assms by (simp_all add: maps_view_def)

lemma maps_view_setDirectionalFunction [simp]:
  "maps_view (setDirectionalFunction name handler s) = maps_view s"
  by (simp add: setDirectionalFunction_def split: option.splits)

lemmas maps_view_mutations =
  maps_view_setOnPressed maps_view_setOnReleased maps_view_setDirectionalFunction
  maps_view_keydownHandler maps_view_keyupHandler maps_view_InputManager_step

lemmas buttons_mutations = maps_view_mutations [THEN maps_view_fields(1)]

lemmas directionals_mutations = maps_view_mutations [THEN maps_view_fields(2)]

lemmas savedControls_mutations = maps_view_mutations [THEN maps_view_fields(3)]

lemma savedControls_apply_op: "savedControls (apply_op x s) = savedControls s"
  by (cases x) (simp_all add: unregisterButton_def unregisterAll_def savedControls_mutations)

lemma savedControls_run_ops: "savedControls (run_ops ops s) = savedControls s"
  unfolding run_ops_def by (rule fold_invariant) (rule savedControls_apply_op)

text \<open>Every operation keeps the names of each mapping distinct.\<close>

lemma distinct_names_apply_op:
  assumes "distinct (map fst (buttons s))" and "distinct (map fst (directionals s))"
  shows "distinct (map fst (buttons (apply_op x s)))
     \<and> distinct (map fst (directionals (apply_op x s)))"
  using assms
  by (cases x)
    (simp_all add: buttons_mutations directionals_mutations registerButton_def registerDirectional_def
      new_Directional_def alloc_Button_def alloc_Directional_def unregisterButton_def
      unregisterAll_def enterMenuMode_full Let_def distinct_update distinct_delete)

text \<open>
  C5. Take a manager whose mappings have one entry per name, call \<open>save()\<close>, then any
  sequence of registrations, unregistrations and mutations of the controls, then
  \<open>restore()\<close>. Afterwards both mappings are the ones of the time of \<open>save()\<close>, name
  for name with the same object references, the snapshot is gone, and the stores of Button
  and Directional objects are the ones the sequence left behind: \<open>restore()\<close> rolls no
  object back, so a mutation made in between is seen through the restored name. With no
  snapshot, \<open>restore()\<close> leaves both mappings and both stores as they are.
\<close>

theorem save_restore_same_objects:
  assumes "distinct (map fst (buttons s))" and "distinct (map fst (directionals s))"
  shows "buttons (restore (run_ops ops (save s))) = buttons s
     \<and> directionals (restore (run_ops ops (save s))) = directionals s
     \<and> buttonObjs (restore (run_ops ops (save s))) = buttonObjs (run_ops ops (save s))
     \<and> directionalObjs (restore (run_ops ops (save s))) = directionalObjs (run_ops ops (save s))
     \<and> savedControls (restore (run_ops ops (save s))) = None
     \<and> (savedControls s = None \<longrightarrow>
          buttons (restore s) = buttons s \<and> directionals (restore s) = directionals s
          \<and> buttonObjs (restore s) = buttonObjs s
          \<and> directionalObjs (restore s) = directionalObjs s)"
proof -
  have saved: "savedControls (run_ops ops (save s)) =
      Some \<lparr>saved_buttons = buttons s, saved_directionals = directionals s\<rparr>"
    unfolding savedControls_run_ops
    by (simp add: save_def Let_def copy_Map_distinct assms)
  show ?thesis
    by (simp add: restore_def saved)
qed


text \<open>
  The theorem at the manager with the button \<open>jump\<close> (object 5): during the saved
  interval \<open>jump\<close> names a new object 6; after \<open>restore()\<close> it names object 5 again,
  which carries the callback \<open>fly\<close> set during the interval.
\<close>

theorem save_restore_same_objects_witness:
  "distinct (map fst (buttons jump_manager))
   \<and> distinct (map fst (directionals jump_manager))
   \<and> map_of (buttons jump_manager) ''jump'' = Some 5
   \<and> map_option onPressed (buttonObjs jump_manager 5) = Some (Handler ''jump'')
   \<and> map_of (buttons (run_ops remap_ops (save jump_manager))) ''jump'' = Some 6
   \<and> map_of (buttons (restore (run_ops remap_ops (save jump_manager)))) ''jump'' = Some 5
   \<and> map_option onPressed (buttonObjs (restore (run_ops remap_ops (save jump_manager))) 5) =
       Some (Handler ''fly'')"
proof -
  have d: "distinct (map fst (buttons jump_manager))" "distinct (map fst (directionals jump_manager))"
    by (simp_all add: jump_manager_full)
  have run: "map_of (buttons (run_ops remap_ops (save jump_manager))) ''jump'' = Some 6
      \<and> map_option onPressed (buttonObjs (run_ops remap_ops (save jump_manager)) 5) =
          Some (Handler ''fly'')"
    unfolding jump_manager_full
    by (simp add: run_ops_def remap_ops_def save_def copy_Map_def reg_defs new_InputManager_def
        Let_def)
  show ?thesis
    using save_restore_same_objects [OF d, of remap_ops] d run
    by (simp add: jump_manager_full new_Button_def)
qed

section \<open>Properties of the Room Editor\<close>

lemmas editor_defs = WorldRoomEditor_mousedownHandler_def world_point_def new_Polygon_def
  addPoints_def getPoints_def selectMouseupHandler_def click_def add_vec_def

lemmas example_defs = example_editor_def example_col_def left_click_at_def
  new_WorldRoomEditor_def

lemma one_click_editor_full:
  "one_click_editor =
     example_editor\<lparr>selectedPolygon := Some 0, mousePos := Vector 1 1,
       polygonObjs := [0 \<mapsto> [Vector 1 1]], nextPolygon := 1\<rparr>"
  unfolding one_click_editor_def by (simp add: editor_defs example_defs Let_def)

lemma two_clicks_editor_full:
  "two_clicks_editor =
     example_editor\<lparr>selectedPolygon := Some 0, mousePos := Vector 2 0,
       polygonObjs := [0 \<mapsto> [Vector 1 1, Vector 2 0]], nextPolygon := 1\<rparr>"
  unfolding two_clicks_editor_def one_click_editor_full
  by (simp add: editor_defs example_defs Let_def)

lemma three_clicks_editor_full:
  "three_clicks_editor =
     example_editor\<lparr>selectedPolygon := Some 0, mousePos := Vector 5 1,
       polygonObjs := [0 \<mapsto> [Vector 1 1, Vector 2 0, Vector 5 1]], nextPolygon := 1\<rparr>"
  unfolding three_clicks_editor_def two_clicks_editor_full
  by (simp add: editor_defs example_defs Let_def)

text \<open>
  C6 (as stated, refuted). In the constructed editor (mode drawBarrier), two left clicks
  followed by a shift-click put three points into the polygon being drawn; three is more
  than two, so the shift-click completes the polygon and clears the in-progress slot. The
  claim says the polygon stays in progress.
\<close>

theorem shift_click_after_two_clicks_completes:
  "mode two_clicks_editor = drawBarrier
   \<and> selectedPolygon two_clicks_editor = Some 0
   \<and> getPoints two_clicks_editor 0 = [Vector 1 1, Vector 2 0]
   \<and> completedPolygons two_clicks_editor = []
   \<and> completedPolygons (click example_col (left_click_at 3 3 True) two_clicks_editor) = [0]
   \<and> selectedPolygon (click example_col (left_click_at 3 3 True) two_clicks_editor) = None
   \<and> getPoints (click example_col (left_click_at 3 3 True) two_clicks_editor) 0 =
       [Vector 1 1, Vector 2 0, Vector 3 3]"
  unfolding two_clicks_editor_full
  by (simp add: editor_defs example_defs Let_def)

text \<open>
  C6 (amended). In drawBarrier mode every press of a mouse button other than the right one
  appends the clicked world point to the polygon being drawn, which is created first when
  there is none. A shift-click then completes the polygon exactly when it has more than two
  points with the new one: the polygon is appended to the completed polygons and the
  in-progress slot is cleared. Otherwise the completed polygons are unchanged and the
  polygon stays in progress. So a shift-click after three clicks completes a polygon of
  four points, a shift-click after two clicks completes one of three points, and a
  shift-click after at most one click completes nothing.
\<close>

theorem drawBarrier_click_appends_and_completes:
  assumes "mode e = drawBarrier" and "button ev \<noteq> 2"
  shows "let target = (case selectedPolygon e of None \<Rightarrow> nextPolygon e | Some p \<Rightarrow> p);
             points = (case selectedPolygon e of None \<Rightarrow> [] | Some p \<Rightarrow> getPoints e p)
                        @ [world_point col ev e];
             e' = WorldRoomEditor_mousedownHandler col ev e
         in getPoints e' target = points
            \<and> mode e' = drawBarrier
            \<and> (if shiftKey ev \<and> length points > 2
               then completedPolygons e' = completedPolygons e @ [target]
                    \<and> selectedPolygon e' = None
               else completedPolygons e' = completedPolygons e
                    \<and> selectedPolygon e' = Some target)"
  using assms
  by (cases "selectedPolygon e") (auto simp: editor_defs Let_def)

text \<open>
  Three clicks and a shift-click in the constructed editor: exactly one completed polygon,
  with the four clicked points, and nothing in progress.
\<close>

theorem drawBarrier_click_appends_and_completes_witness:
  "mode three_clicks_editor = drawBarrier
   \<and> button (left_click_at 4 4 True) \<noteq> 2
   \<and> selectedPolygon three_clicks_editor = Some 0
   \<and> completedPolygons three_clicks_editor = []
   \<and> getPoints three_clicks_editor 0 = [Vector 1 1, Vector 2 0, Vector 5 1]
   \<and> completedPolygons
        (WorldRoomEditor_mousedownHandler example_col (left_click_at 4 4 True) three_clicks_editor)
       = [0]
   \<and> getPoints
        (WorldRoomEditor_mousedownHandler example_col (left_click_at 4 4 True) three_clicks_editor) 0
       = [Vector 1 1, Vector 2 0, Vector 5 1, Vector 4 4]
   \<and> selectedPolygon
        (WorldRoomEditor_mousedownHandler example_col (left_click_at 4 4 True) three_clicks_editor)
       = None"
proof -
  have m: "mode three_clicks_editor = drawBarrier"
    unfolding three_clicks_editor_full by (simp add: example_defs)
  have b: "button (left_click_at 4 4 True) \<noteq> 2"
    by (simp add: left_click_at_def)
  have s: "selectedPolygon three_clicks_editor = Some 0
     \<and> completedPolygons three_clicks_editor = []
     \<and> getPoints three_clicks_editor 0 = [Vector 1 1, Vector 2 0, Vector 5 1]
     \<and> cameraOffset three_clicks_editor = Vector 0 0"
    unfolding three_clicks_editor_full by (simp add: example_defs getPoints_def)
  show ?thesis
    using drawBarrier_click_appends_and_completes [OF m b, of example_col] m b s
    by (simp add: Let_def world_point_def add_vec_def example_col_def left_click_at_def)
qed

text \<open>
  C10. When \<open>delete()\<close> is called while a polygon is selected that is not among the
  completed polygons (the polygon being drawn), the editor is left as it is: the completed
  polygons, the room's backgrounds and entities and the three selections are unchanged.
\<close>

theorem delete_in_progress_polygon_unchanged:
  "selectedPolygon e = Some p \<Longrightarrow> p \<notin> set (completedPolygons e) \<Longrightarrow> WorldRoomEditor_delete e = e"
  by (simp add: WorldRoomEditor_delete_def)

text \<open>
  After one click in the constructed editor the polygon being drawn is object 0, it is
  selected and not completed, and \<open>delete()\<close> changes nothing.
\<close>

theorem delete_in_progress_polygon_unchanged_witness:
  "selectedPolygon one_click_editor = Some 0
   \<and> 0 \<notin> set (completedPolygons one_click_editor)
   \<and> WorldRoomEditor_delete one_click_editor = one_click_editor"
proof -
  have sel: "selectedPolygon one_click_editor = Some 0"
    unfolding one_click_editor_full by simp
  have notin: "0 \<notin> set (completedPolygons one_click_editor)"
    unfolding one_click_editor_full by (simp add: example_defs)
  show ?thesis
    using delete_in_progress_polygon_unchanged [OF sel notin] sel notin by simp
qed

end
